theory Spec2Isabelle
  imports Complex_Main
begin

section \<open>The tick generator \<^verbatim>\<open>fx-data-generate.py\<close>\<close>

text \<open>
  The script synthesises foreign-exchange ticks over a date range with one of five
  price models and writes them as CSV. This theory embeds its functions and settles
  the properties stated about them.

  Conventions of the embedding:
  \<^item> a Python \<^verbatim>\<open>float\<close> is a \<^typ>\<open>real\<close>: arithmetic is exact, there is no rounding, no
    infinity and no NaN. What binary64 adds on top (rounding of every operation) is
    outside the embedding; \<^verbatim>\<open>math.exp\<close> keeps its \<^verbatim>\<open>OverflowError\<close>;
  \<^item> a Python \<^verbatim>\<open>int\<close> is an \<^typ>\<open>int\<close>;
  \<^item> a naive \<^verbatim>\<open>datetime\<close> is the number of microseconds between 1970-01-01 00:00:00
    and the wall-clock time it denotes, and a \<^verbatim>\<open>timedelta\<close> is a number of
    microseconds; \<^verbatim>\<open>datetime.timestamp()\<close> is taken in a process whose local zone is UTC;
  \<^item> every exception is a value: a function that can raise returns \<open>error + 'a\<close>;
  \<^item> the unseeded \<^verbatim>\<open>random.random()\<close> is a parameter: the sequence of its draws.
\<close>

subsection \<open>Library operations the script uses\<close>

datatype error = ZeroDivisionError | OverflowError | IndexError | ValueError

type_synonym datetime = int
type_synonym timedelta = int

text \<open>\<^verbatim>\<open>datetime.min\<close> is 0001-01-01 00:00:00 and \<^verbatim>\<open>datetime.max\<close> is
  9999-12-31 23:59:59.999999; arithmetic that leaves the range raises \<^verbatim>\<open>OverflowError\<close>.\<close>

definition datetime_min :: datetime where
  "datetime_min = - 62135596800000000"

definition datetime_max :: datetime where
  "datetime_max = 253402300799999999"

definition datetime_add :: "datetime \<Rightarrow> timedelta \<Rightarrow> error + datetime" where
  "datetime_add t d =
     (if datetime_min \<le> t + d \<and> t + d \<le> datetime_max then Inr (t + d) else Inl OverflowError)"

definition timedelta_days :: "int \<Rightarrow> timedelta" where
  "timedelta_days n = n * 86400000000"

text \<open>\<^verbatim>\<open>timedelta / timedelta\<close>: true division of the two microsecond counts.\<close>

definition timedelta_div :: "timedelta \<Rightarrow> timedelta \<Rightarrow> error + real" where
  "timedelta_div a b = (if b = 0 then Inl ZeroDivisionError else Inr (real_of_int a / real_of_int b))"

text \<open>\<^verbatim>\<open>int(x)\<close> on a float truncates towards zero; \<^verbatim>\<open>round(x)\<close> rounds half to even.\<close>

definition py_int :: "real \<Rightarrow> int" where
  "py_int x = (if 0 \<le> x then \<lfloor>x\<rfloor> else \<lceil>x\<rceil>)"

definition py_round :: "real \<Rightarrow> int" where
  "py_round x =
     (let f = \<lfloor>x\<rfloor>; r = x - of_int f
      in if r < 1 / 2 then f else if 1 / 2 < r then f + 1 else if even f then f else f + 1)"

text \<open>\<^verbatim>\<open>timedelta(seconds=x)\<close> for a float \<open>x\<close>: the whole seconds, plus the fraction
  rounded to a whole number of microseconds.\<close>

definition timedelta_seconds :: "real \<Rightarrow> timedelta" where
  "timedelta_seconds x =
     (let whole = py_int x; secondsfrac = x - of_int whole
      in whole * 1000000 + py_round (secondsfrac * 1000000))"

definition float_div :: "real \<Rightarrow> real \<Rightarrow> error + real" where
  "float_div x y = (if y = 0 then Inl ZeroDivisionError else Inr (x / y))"

text \<open>\<^verbatim>\<open>x % y\<close> on floats: the remainder has the sign of the divisor.\<close>

definition float_mod :: "real \<Rightarrow> real \<Rightarrow> error + real" where
  "float_mod x y = (if y = 0 then Inl ZeroDivisionError else Inr (x - y * of_int \<lfloor>x / y\<rfloor>))"

definition int_mod :: "int \<Rightarrow> int \<Rightarrow> error + int" where
  "int_mod a b = (if b = 0 then Inl ZeroDivisionError else Inr (a mod b))"

text \<open>\<^verbatim>\<open>math.exp\<close> raises \<^verbatim>\<open>OverflowError\<close> above the largest argument whose
  exponential is a finite binary64 number.\<close>

definition exp_argument_max :: real where
  "exp_argument_max = 709782712893384 / 1000000000000"

definition py_exp :: "real \<Rightarrow> error + real" where
  "py_exp x = (if exp_argument_max < x then Inl OverflowError else Inr (exp x))"

text \<open>\<^verbatim>\<open>str(n)\<close> of an integer, \<^verbatim>\<open>s[-3:]\<close>, and \<^verbatim>\<open>int(s)\<close> of such a string.\<close>

definition digit_char :: "nat \<Rightarrow> char" where
  "digit_char d = char_of (48 + d)"

fun str_nat :: "nat \<Rightarrow> string" where
  "str_nat n = (if n < 10 then [digit_char n] else str_nat (n div 10) @ [digit_char (n mod 10)])"

declare str_nat.simps [simp del]

definition str_int :: "int \<Rightarrow> string" where
  "str_int n = (if n < 0 then CHR ''-'' # str_nat (nat (- n)) else str_nat (nat n))"

definition last_chars :: "nat \<Rightarrow> string \<Rightarrow> string" where
  "last_chars k s = drop (length s - k) s"

definition digit_val :: "char \<Rightarrow> nat" where
  "digit_val c = of_char c - 48"

definition nat_of_str :: "string \<Rightarrow> nat" where
  "nat_of_str s = foldl (\<lambda>acc c. 10 * acc + digit_val c) 0 s"

definition int_of_str :: "string \<Rightarrow> int" where
  "int_of_str s =
     (case s of
        [] \<Rightarrow> 0
      | c # cs \<Rightarrow> if c = CHR ''-'' then - int (nat_of_str cs) else int (nat_of_str s))"

subsection \<open>Ticks\<close>

record tick =
  timestamp :: datetime
  bidPrice :: real
  askPrice :: real
  bidVolume :: int
  askVolume :: real

text \<open>The local variables of a model while its loop runs: the five values the next
  tick is made of, and the ticks emitted so far.\<close>

record vars =
  cur :: tick
  ticks :: "tick list"

text \<open>\<^verbatim>\<open>ticks += [{"timestamp": timestamp, "bidPrice": bidPrice, ...}]\<close>\<close>

definition emit :: "vars \<Rightarrow> vars" where
  "emit s = s\<lparr>ticks := ticks s @ [cur s]\<rparr>"

text \<open>\<^verbatim>\<open>for i in range(a, b): body\<close>, stopping at the first exception.\<close>

function for_range :: "int \<Rightarrow> int \<Rightarrow> (int \<Rightarrow> 's \<Rightarrow> error + 's) \<Rightarrow> 's \<Rightarrow> error + 's" where
  "for_range a b body s =
     (if a < b
      then (case body a s of Inl e \<Rightarrow> Inl e | Inr s' \<Rightarrow> for_range (a + 1) b body s')
      else Inr s)"
  by pat_completeness auto
termination
  by (relation "measure (\<lambda>(a, b, body, s). nat (b - a))") auto

declare for_range.simps [simp del]

subsection \<open>\<^verbatim>\<open>volumesFromTimestamp\<close>\<close>

definition posix_timestamp :: "datetime \<Rightarrow> real" where
  "posix_timestamp t = real_of_int t / 1000000"

text \<open>\<^verbatim>\<open>timestamp.timestamp()\<close> of a naive \<^verbatim>\<open>datetime\<close>: the seconds since the epoch. To
  tell a repeated local time it looks one day back, and raises \<^verbatim>\<open>ValueError\<close> when that
  day is before the year 1.\<close>

definition datetime_timestamp :: "datetime \<Rightarrow> error + real" where
  "datetime_timestamp t =
     (if t < datetime_min + timedelta_days 1 then Inl ValueError else Inr (posix_timestamp t))"

definition volumesFromTimestamp :: "datetime \<Rightarrow> real \<Rightarrow> error + (int \<times> real)" where
  "volumesFromTimestamp t spread0 =
     (case datetime_timestamp t of
        Inl e \<Rightarrow> Inl e
      | Inr longTimestamp \<Rightarrow>
          (let spread = spread0 * 100000;
               d = int_of_str (last_chars 3 (str_int (py_int (longTimestamp / 60)))) + 1
           in case float_div longTimestamp (of_int d) of
                Inl e \<Rightarrow> Inl e
              | Inr q \<Rightarrow>
                  (case float_mod q (1000 - spread) of
                     Inl e \<Rightarrow> Inl e
                   | Inr m \<Rightarrow>
                       let bidVolume = py_int m in Inr (bidVolume, of_int bidVolume + spread))))"

subsection \<open>\<^verbatim>\<open>linearModel\<close>\<close>

text \<open>The values of the local variables before the loop; every model starts with them.\<close>

definition initial_vars :: "datetime \<Rightarrow> real \<Rightarrow> real \<Rightarrow> vars" where
  "initial_vars startDate startPrice spread =
     (let timestamp = startDate;
          bidPrice = startPrice;
          askPrice = bidPrice + spread;
          bidVolume = 1;
          askVolume = of_int bidVolume + spread
      in \<lparr>cur = \<lparr>timestamp = timestamp, bidPrice = bidPrice, askPrice = askPrice,
                  bidVolume = bidVolume, askVolume = askVolume\<rparr>,
          ticks = []\<rparr>)"

definition linear_body :: "timedelta \<Rightarrow> real \<Rightarrow> real \<Rightarrow> vars \<Rightarrow> error + vars" where
  "linear_body deltaTime deltaPrice spread s0 =
     (let s = emit s0
      in case datetime_add (timestamp (cur s)) deltaTime of
           Inl e \<Rightarrow> Inl e
         | Inr t \<Rightarrow>
             (let bid = bidPrice (cur s) + deltaPrice;
                  ask = askPrice (cur s) + deltaPrice
              in case volumesFromTimestamp t spread of
                   Inl e \<Rightarrow> Inl e
                 | Inr (bv, av) \<Rightarrow>
                     Inr (s\<lparr>cur := \<lparr>timestamp = t, bidPrice = bid, askPrice = ask,
                                    bidVolume = bv, askVolume = av\<rparr>\<rparr>)))"

text \<open>\<^verbatim>\<open>while timestamp < (endDate + datetime.timedelta(days=1)): ...\<close> The loop does
  not end when \<open>deltaTime\<close> is zero: then the result is \<open>None\<close>.\<close>

partial_function (option) linear_loop ::
  "datetime \<Rightarrow> timedelta \<Rightarrow> real \<Rightarrow> real \<Rightarrow> vars \<Rightarrow> (error + vars) option" where
  "linear_loop endDate deltaTime deltaPrice spread s =
     (case datetime_add endDate (timedelta_days 1) of
        Inl e \<Rightarrow> Some (Inl e)
      | Inr stop \<Rightarrow>
          if timestamp (cur s) < stop
          then (case linear_body deltaTime deltaPrice spread s of
                  Inl e \<Rightarrow> Some (Inl e)
                | Inr s' \<Rightarrow> linear_loop endDate deltaTime deltaPrice spread s')
          else Some (Inr s))"

declare linear_loop.simps [code]

definition linearModel ::
  "datetime \<Rightarrow> datetime \<Rightarrow> real \<Rightarrow> real \<Rightarrow> timedelta \<Rightarrow> real \<Rightarrow> (error + tick list) option" where
  "linearModel startDate endDate startPrice endPrice deltaTime spread =
     (case datetime_add endDate (timedelta_days 1) of
        Inl e \<Rightarrow> Some (Inl e)
      | Inr stop \<Rightarrow>
          (case timedelta_div deltaTime (stop - startDate - deltaTime) of
             Inl e \<Rightarrow> Some (Inl e)
           | Inr r \<Rightarrow>
               (let deltaPrice = r * (endPrice - startPrice)
                in case linear_loop endDate deltaTime deltaPrice spread
                          (initial_vars startDate startPrice spread) of
                     None \<Rightarrow> None
                   | Some (Inl e) \<Rightarrow> Some (Inl e)
                   | Some (Inr s) \<Rightarrow> Some (Inr (ticks s)))))"

subsection \<open>The models that count their ticks first\<close>

text \<open>\<^verbatim>\<open>count = ceil((endDate + datetime.timedelta(days=1) - startDate) / deltaTime)\<close>\<close>

definition tick_count :: "datetime \<Rightarrow> datetime \<Rightarrow> timedelta \<Rightarrow> error + int" where
  "tick_count startDate endDate deltaTime =
     (case datetime_add endDate (timedelta_days 1) of
        Inl e \<Rightarrow> Inl e
      | Inr stop \<Rightarrow>
          (case timedelta_div (stop - startDate) deltaTime of
             Inl e \<Rightarrow> Inl e
           | Inr q \<Rightarrow> Inr \<lceil>q\<rceil>))"

text \<open>The last two statements of every counted loop body, once the new timestamp \<open>t\<close>
  and the new bid price are known:
  \<^verbatim>\<open>askPrice = bidPrice + spread\<close> and
  \<^verbatim>\<open>(bidVolume, askVolume) = volumesFromTimestamp(timestamp, spread)\<close>.\<close>

definition finish :: "datetime \<Rightarrow> real \<Rightarrow> real \<Rightarrow> vars \<Rightarrow> error + vars" where
  "finish t bid spread s =
     (let ask = bid + spread
      in case volumesFromTimestamp t spread of
           Inl e \<Rightarrow> Inl e
         | Inr (bv, av) \<Rightarrow>
             Inr (s\<lparr>cur := \<lparr>timestamp = t, bidPrice = bid, askPrice = ask,
                            bidVolume = bv, askVolume = av\<rparr>\<rparr>))"

subsection \<open>\<^verbatim>\<open>zigzagModel\<close>\<close>

definition zigzag_body ::
  "timedelta \<Rightarrow> real \<Rightarrow> real \<Rightarrow> int \<Rightarrow> int \<Rightarrow> int \<Rightarrow> vars \<Rightarrow> error + vars" where
  "zigzag_body deltaTime spread lift forward backward i0 s0 =
     (let s = emit s0; i = i0 + 1
      in case datetime_add (timestamp (cur s)) deltaTime of
           Inl e \<Rightarrow> Inl e
         | Inr t \<Rightarrow>
             (case int_mod i (forward + backward) of
                Inl e \<Rightarrow> Inl e
              | Inr m \<Rightarrow>
                  (let bid = (if m < forward
                              then bidPrice (cur s)
                                   + real_of_int (forward + 2 * backward) / real_of_int forward * lift
                              else bidPrice (cur s) - lift)
                   in finish t bid spread s)))"

definition zigzag_tail :: "timedelta \<Rightarrow> real \<Rightarrow> real \<Rightarrow> int \<Rightarrow> vars \<Rightarrow> error + vars" where
  "zigzag_tail deltaTime spread lift i0 s0 =
     (let s = emit s0
      in case datetime_add (timestamp (cur s)) deltaTime of
           Inl e \<Rightarrow> Inl e
         | Inr t \<Rightarrow> finish t (bidPrice (cur s) + lift) spread s)"

definition zigzagModel ::
  "datetime \<Rightarrow> datetime \<Rightarrow> real \<Rightarrow> real \<Rightarrow> timedelta \<Rightarrow> real \<Rightarrow> real \<Rightarrow> error + tick list" where
  "zigzagModel startDate endDate startPrice endPrice deltaTime spread volatility =
     (let deltaPrice = endPrice - startPrice
      in case tick_count startDate endDate deltaTime of
           Inl e \<Rightarrow> Inl e
         | Inr count \<Rightarrow>
             (case float_div deltaPrice (of_int count) of
                Inl e \<Rightarrow> Inl e
              | Inr lift \<Rightarrow>
                  (let forward = 500;
                       backward = py_int (volatility * 50)
                   in case for_range 0 (count - backward)
                             (zigzag_body deltaTime spread lift forward backward)
                             (initial_vars startDate startPrice spread) of
                        Inl e \<Rightarrow> Inl e
                      | Inr s \<Rightarrow>
                          (case float_div (endPrice - bidPrice (cur s)) (of_int (backward - 1)) of
                             Inl e \<Rightarrow> Inl e
                           | Inr lift' \<Rightarrow>
                               (case for_range (count - backward) count
                                       (zigzag_tail deltaTime spread lift') s of
                                  Inl e \<Rightarrow> Inl e
                                | Inr s' \<Rightarrow> Inr (ticks s'))))))"

subsection \<open>\<^verbatim>\<open>waveModel\<close>\<close>

definition wave_body ::
  "timedelta \<Rightarrow> real \<Rightarrow> real \<Rightarrow> real \<Rightarrow> real \<Rightarrow> int \<Rightarrow> int \<Rightarrow> vars \<Rightarrow> error + vars" where
  "wave_body deltaTime spread volatility startPrice deltaPrice count i0 s0 =
     (let s = emit s0; i = i0 + 1
      in case datetime_add (timestamp (cur s)) deltaTime of
           Inl e \<Rightarrow> Inl e
         | Inr t \<Rightarrow>
             (case float_div (of_int i) (of_int (count - 1)) of
                Inl e \<Rightarrow> Inl e
              | Inr x \<Rightarrow>
                  (let bid = (if \<bar>deltaPrice\<bar> > 0
                              then \<bar>startPrice + x * deltaPrice + volatility * sin (x * 3 * pi)\<bar>
                              else \<bar>startPrice + volatility * sin (x * 3 * pi)\<bar>)
                   in finish t bid spread s)))"

definition waveModel ::
  "datetime \<Rightarrow> datetime \<Rightarrow> real \<Rightarrow> real \<Rightarrow> timedelta \<Rightarrow> real \<Rightarrow> real \<Rightarrow> error + tick list" where
  "waveModel startDate endDate startPrice endPrice deltaTime spread volatility =
     (let deltaPrice = endPrice - startPrice
      in case tick_count startDate endDate deltaTime of
           Inl e \<Rightarrow> Inl e
         | Inr count \<Rightarrow>
             (case for_range 0 count
                     (wave_body deltaTime spread volatility startPrice deltaPrice count)
                     (initial_vars startDate startPrice spread) of
                Inl e \<Rightarrow> Inl e
              | Inr s \<Rightarrow> Inr (ticks s)))"

subsection \<open>\<^verbatim>\<open>curveModel\<close>\<close>

text \<open>\<^verbatim>\<open>startPrice + (1 - (exp(i / d) - exp((count - 1) / d)) / (1 - exp((count - 1) / d))) * deltaPrice\<close>,
  its operands evaluated from left to right.\<close>

definition curve_price :: "real \<Rightarrow> real \<Rightarrow> int \<Rightarrow> real \<Rightarrow> int \<Rightarrow> error + real" where
  "curve_price startPrice deltaPrice count d i =
     (case float_div (of_int i) d of
        Inl e \<Rightarrow> Inl e
      | Inr x \<Rightarrow>
     (case py_exp x of
        Inl e \<Rightarrow> Inl e
      | Inr ei \<Rightarrow>
     (case float_div (of_int (count - 1)) d of
        Inl e \<Rightarrow> Inl e
      | Inr y \<Rightarrow>
     (case py_exp y of
        Inl e \<Rightarrow> Inl e
      | Inr ec \<Rightarrow>
     (case float_div (ei - ec) (1 - ec) of
        Inl e \<Rightarrow> Inl e
      | Inr q \<Rightarrow> Inr (startPrice + (1 - q) * deltaPrice))))))"

definition curve_body ::
  "timedelta \<Rightarrow> real \<Rightarrow> real \<Rightarrow> real \<Rightarrow> int \<Rightarrow> real \<Rightarrow> int \<Rightarrow> vars \<Rightarrow> error + vars" where
  "curve_body deltaTime spread startPrice deltaPrice count d i0 s0 =
     (let s = emit s0; i = i0 + 1
      in case datetime_add (timestamp (cur s)) deltaTime of
           Inl e \<Rightarrow> Inl e
         | Inr t \<Rightarrow>
             (case curve_price startPrice deltaPrice count d i of
                Inl e \<Rightarrow> Inl e
              | Inr bid \<Rightarrow> finish t bid spread s))"

definition curveModel ::
  "datetime \<Rightarrow> datetime \<Rightarrow> real \<Rightarrow> real \<Rightarrow> timedelta \<Rightarrow> real \<Rightarrow> real \<Rightarrow> error + tick list" where
  "curveModel startDate endDate startPrice endPrice deltaTime spread volatility =
     (let deltaPrice = endPrice - startPrice
      in case tick_count startDate endDate deltaTime of
           Inl e \<Rightarrow> Inl e
         | Inr count \<Rightarrow>
             (case float_div (of_int count) volatility of
                Inl e \<Rightarrow> Inl e
              | Inr d \<Rightarrow>
                  (case for_range 0 count
                          (curve_body deltaTime spread startPrice deltaPrice count d)
                          (initial_vars startDate startPrice spread) of
                     Inl e \<Rightarrow> Inl e
                   | Inr s \<Rightarrow> Inr (ticks s))))"

subsection \<open>\<^verbatim>\<open>randomModel\<close>\<close>

text \<open>\<open>rnd i\<close> is what \<^verbatim>\<open>random.random()\<close> returns in the iteration with index \<open>i\<close>.\<close>

definition random_body ::
  "(int \<Rightarrow> real) \<Rightarrow> timedelta \<Rightarrow> real \<Rightarrow> real \<Rightarrow> real \<Rightarrow> int \<Rightarrow> vars \<Rightarrow> error + vars" where
  "random_body rnd deltaTime spread volatility deltaPrice i s0 =
     (let s = emit s0
      in case datetime_add (timestamp (cur s)) deltaTime of
           Inl e \<Rightarrow> Inl e
         | Inr t \<Rightarrow>
             (let bid = bidPrice (cur s) + (deltaPrice + deltaPrice * (rnd i - 0.5) * volatility)
              in finish t bid spread s))"

text \<open>\<^verbatim>\<open>ticks[-1]["bidPrice"] = endPrice; ticks[-1]["askPrice"] = endPrice + spread\<close>\<close>

definition set_last_prices :: "real \<Rightarrow> real \<Rightarrow> tick list \<Rightarrow> error + tick list" where
  "set_last_prices endPrice spread ts =
     (if ts = [] then Inl IndexError
      else Inr (butlast ts @ [(last ts)\<lparr>bidPrice := endPrice, askPrice := endPrice + spread\<rparr>]))"

definition randomModel ::
  "(int \<Rightarrow> real) \<Rightarrow> datetime \<Rightarrow> datetime \<Rightarrow> real \<Rightarrow> real \<Rightarrow> timedelta \<Rightarrow> real \<Rightarrow> real
     \<Rightarrow> error + tick list" where
  "randomModel rnd startDate endDate startPrice endPrice deltaTime spread volatility =
     (case datetime_add endDate (timedelta_days 1) of
        Inl e \<Rightarrow> Inl e
      | Inr stop \<Rightarrow>
          (case timedelta_div deltaTime (stop - startDate - deltaTime) of
             Inl e \<Rightarrow> Inl e
           | Inr r \<Rightarrow>
               (let deltaPrice = r * (endPrice - startPrice)
                in case tick_count startDate endDate deltaTime of
                     Inl e \<Rightarrow> Inl e
                   | Inr count \<Rightarrow>
                       (case for_range 0 count
                               (random_body rnd deltaTime spread volatility deltaPrice)
                               (initial_vars startDate startPrice spread) of
                          Inl e \<Rightarrow> Inl e
                        | Inr s \<Rightarrow> set_last_prices endPrice spread (ticks s)))))"

subsection \<open>\<^verbatim>\<open>toCsv\<close> and the command line\<close>

text \<open>What the script takes from its environment: \<^verbatim>\<open>strptime\<close> with the format
  \<^verbatim>\<open>%Y.%m.%d\<close> (\<open>None\<close> when it raises \<^verbatim>\<open>ValueError\<close>), \<^verbatim>\<open>strftime\<close> with
  \<^verbatim>\<open>%Y.%m.%d %H:%M:%S.%f\<close>, the formatting of a float with a given number of
  decimals, and the draws of \<^verbatim>\<open>random.random()\<close>.\<close>

record env =
  strptime :: "string \<Rightarrow> datetime option"
  strftime :: "datetime \<Rightarrow> string"
  format_fixed :: "int \<Rightarrow> real \<Rightarrow> string"
  random :: "int \<Rightarrow> real"

definition toCsv :: "env \<Rightarrow> tick list \<Rightarrow> int \<Rightarrow> string list list" where
  "toCsv ev rows digits =
     map (\<lambda>row.
            [take (length (strftime ev (timestamp row)) - 3) (strftime ev (timestamp row)),
             format_fixed ev digits (max (bidPrice row) (1 / 10 ^ nat digits)),
             format_fixed ev digits (max (askPrice row) (1 / 10 ^ nat digits)),
             format_fixed ev digits (of_int (bidVolume row)),
             format_fixed ev digits (askVolume row)])
         rows"

datatype pattern = PatternNone | PatternWave | PatternCurve | PatternZigzag | PatternRandom

text \<open>The parsed command line. \<^verbatim>\<open>argparse\<close> has already rejected (with status 2)
  anything that is not of these types.\<close>

record args =
  arg_startDate :: string
  arg_endDate :: string
  arg_startPrice :: real
  arg_endPrice :: real
  arg_digits :: int
  arg_spread :: int
  arg_density :: int
  arg_pattern :: pattern
  arg_volatility :: real
  arg_outputFile :: "string option"
  arg_verbose :: bool

text \<open>What a run leaves behind: its exit status, the lines on the error stream, and
  the CSV rows written to the sink (the file \<^verbatim>\<open>outputFile\<close>, or standard output).\<close>

record outcome =
  exit_status :: int
  stderr :: "string list"
  sink :: "string option"
  written :: "string list list"

text \<open>\<^verbatim>\<open>error(...)\<close> prints one line and leaves with status 1.\<close>

definition error_exit :: "string \<Rightarrow> outcome" where
  "error_exit m = \<lparr>exit_status = 1, stderr = [''[ERROR] '' @ m], sink = None, written = []\<rparr>"

definition msg :: "string \<Rightarrow> string" where
  "msg m = ''[INFO] '' @ m"

text \<open>An exception nobody catches: the traceback, here the name of the exception, goes
  to the error stream and the status is 1.\<close>

definition error_name :: "error \<Rightarrow> string" where
  "error_name e =
     (case e of ZeroDivisionError \<Rightarrow> ''ZeroDivisionError''
              | OverflowError \<Rightarrow> ''OverflowError''
              | IndexError \<Rightarrow> ''IndexError''
              | ValueError \<Rightarrow> ''ValueError'')"

definition uncaught :: "string list \<Rightarrow> error \<Rightarrow> outcome" where
  "uncaught errlines e = \<lparr>exit_status = 1, stderr = errlines @ [error_name e], sink = None, written = []\<rparr>"

text \<open>\<^verbatim>\<open>if args.pattern == "none": rows = linearModel(...) elif ...\<close>\<close>

definition run_model ::
  "(int \<Rightarrow> real) \<Rightarrow> pattern \<Rightarrow> datetime \<Rightarrow> datetime \<Rightarrow> real \<Rightarrow> real \<Rightarrow> timedelta \<Rightarrow> real \<Rightarrow> real
     \<Rightarrow> (error + tick list) option" where
  "run_model rnd p startDate endDate startPrice endPrice deltaTime spread volatility =
     (case p of
        PatternNone \<Rightarrow> linearModel startDate endDate startPrice endPrice deltaTime spread
      | PatternZigzag \<Rightarrow>
          Some (zigzagModel startDate endDate startPrice endPrice deltaTime spread volatility)
      | PatternWave \<Rightarrow>
          Some (waveModel startDate endDate startPrice endPrice deltaTime spread volatility)
      | PatternCurve \<Rightarrow>
          Some (curveModel startDate endDate startPrice endPrice deltaTime spread volatility)
      | PatternRandom \<Rightarrow>
          Some (randomModel rnd startDate endDate startPrice endPrice deltaTime spread volatility))"

text \<open>From \<^verbatim>\<open>spread = args.spread / 1e5\<close> to the rows: the spread in price units, the
  interval \<^verbatim>\<open>datetime.timedelta(seconds=60 / args.density)\<close>, and the selected model.\<close>

definition generate ::
  "(int \<Rightarrow> real) \<Rightarrow> pattern \<Rightarrow> datetime \<Rightarrow> datetime \<Rightarrow> real \<Rightarrow> real \<Rightarrow> int \<Rightarrow> int \<Rightarrow> real
     \<Rightarrow> (error + tick list) option" where
  "generate rnd p startDate endDate startPrice endPrice spread_points density volatility =
     (let spread = real_of_int spread_points / 100000
      in case float_div 60 (real_of_int density) of
           Inl e \<Rightarrow> Some (Inl e)
         | Inr seconds \<Rightarrow>
             (let deltaTime = timedelta_seconds seconds
              in run_model rnd p startDate endDate startPrice endPrice deltaTime spread volatility))"

definition main :: "env \<Rightarrow> args \<Rightarrow> outcome option" where
  "main ev a =
     (case (strptime ev (arg_startDate a), strptime ev (arg_endDate a)) of
        (None, _) \<Rightarrow> Some (error_exit ''Bad date format!'')
      | (Some startDate, None) \<Rightarrow> Some (error_exit ''Bad date format!'')
      | (Some startDate, Some endDate) \<Rightarrow>
          if endDate < startDate then Some (error_exit ''Ending date precedes starting date!'')
          else if arg_digits a \<le> 0 then Some (error_exit ''Digits must be larger than zero!'')
          else if arg_startPrice a \<le> 0 \<or> arg_endPrice a \<le> 0
            then Some (error_exit ''Price must be larger than zero!'')
          else if arg_spread a < 0
            then Some (error_exit ''Spread must be larger or equal to zero!'')
          else if arg_density a \<le> 0 then Some (error_exit ''Density must be larger than zero!'')
          else if arg_volatility a \<le> 0
            then Some (error_exit ''Volatility must be larger than zero!'')
          else
            (let log1 = (if arg_verbose a
                         then [msg (''[INFO] Spread: ''
                                    @ format_fixed ev 2 (real_of_int (arg_spread a) / 100000))]
                         else []);
                 log2 = log1 @ (if arg_verbose a
                                then [msg (''[INFO] Pattern: ''
                                           @ (case arg_pattern a of
                                                PatternNone \<Rightarrow> ''none'' | PatternWave \<Rightarrow> ''wave''
                                              | PatternCurve \<Rightarrow> ''curve'' | PatternZigzag \<Rightarrow> ''zigzag''
                                              | PatternRandom \<Rightarrow> ''random''))]
                                else [])
             in case generate (random ev) (arg_pattern a) startDate endDate
                       (arg_startPrice a) (arg_endPrice a) (arg_spread a) (arg_density a)
                       (arg_volatility a) of
                  None \<Rightarrow> None
                | Some (Inl e) \<Rightarrow> Some (uncaught log2 e)
                | Some (Inr rows) \<Rightarrow>
                    (let log3 = log2 @ (if arg_verbose a
                                        then [msg (''[INFO] Generated rows: ''
                                                   @ str_int (int (length rows)))]
                                        else []);
                         log4 = log3 @ (if arg_verbose a \<and> arg_outputFile a \<noteq> None
                                               \<and> arg_outputFile a \<noteq> Some []
                                        then [msg (''[INFO] Output file: '' @ the (arg_outputFile a))]
                                        else [])
                     in Some \<lparr>exit_status = 0, stderr = log4,
                              sink = (if arg_outputFile a = Some [] then None else arg_outputFile a),
                              written = toCsv ev rows (arg_digits a)\<rparr>)))"

subsection \<open>Calendar dates\<close>

text \<open>\<^verbatim>\<open>datetime.datetime(y, m, d)\<close>, midnight of a day of the proleptic Gregorian
  calendar, as \<^verbatim>\<open>strptime\<close> returns it for \<^verbatim>\<open>y.m.d\<close>.\<close>

definition days_from_civil :: "int \<Rightarrow> int \<Rightarrow> int \<Rightarrow> int" where
  "days_from_civil y m d =
     (let y' = (if m \<le> 2 then y - 1 else y);
          era = y' div 400;
          yoe = y' - era * 400;
          doy = (153 * (if 2 < m then m - 3 else m + 9) + 2) div 5 + d - 1;
          doe = yoe * 365 + yoe div 4 - yoe div 100 + doy
      in era * 146097 + doe - 719468)"

definition midnight :: "int \<Rightarrow> int \<Rightarrow> int \<Rightarrow> datetime" where
  "midnight y m d = timedelta_days (days_from_civil y m d)"

subsection \<open>Reading a result\<close>

text \<open>The first tick, the last tick, the number of ticks and the timestamps of the
  sequence a run returned; nothing when it raised or did not end.\<close>

definition first_tick :: "(error + tick list) option \<Rightarrow> tick option" where
  "first_tick r = (case r of Some (Inr (t # ts)) \<Rightarrow> Some t | _ \<Rightarrow> None)"


definition tick_total :: "(error + tick list) option \<Rightarrow> nat option" where
  "tick_total r = (case r of Some (Inr ts) \<Rightarrow> Some (length ts) | _ \<Rightarrow> None)"

definition timestamps_of :: "(error + tick list) option \<Rightarrow> datetime list" where
  "timestamps_of r = (case r of Some (Inr ts) \<Rightarrow> map timestamp ts | _ \<Rightarrow> [])"

text \<open>A sequence of draws to run the random model on: every draw is one half, the
  centre of the interval \<^verbatim>\<open>random.random()\<close> draws from.\<close>

definition centre_draws :: "int \<Rightarrow> real" where
  "centre_draws i = 1 / 2"

subsection \<open>The volume synthesiser in the words of the specification\<close>

text \<open>The remainder of two reals, with the sign of the divisor.\<close>

definition real_mod :: "real \<Rightarrow> real \<Rightarrow> real" where
  "real_mod x y = x - y * of_int \<lfloor>x / y\<rfloor>"

text \<open>``Divide by 60 (minutes since epoch), take the last three decimal digits of that
  integer, add 1 --- call this \<open>d\<close>.''\<close>

definition spec_d :: "datetime \<Rightarrow> int" where
  "spec_d t = \<bar>\<lfloor>posix_timestamp t / 60\<rfloor>\<bar> mod 1000 + 1"


subsection \<open>What every iteration keeps\<close>

text \<open>Consecutive entries of a list of timestamps differ by \<open>d\<close>.\<close>

fun spaced :: "int \<Rightarrow> int list \<Rightarrow> bool" where
  "spaced d (x # y # zs) = (y = x + d \<and> spaced d (y # zs))"
| "spaced d zs = True"

text \<open>One iteration of any of the six loops, when it raises nothing: the current tick
  is emitted, the timestamp advances by \<open>deltaTime\<close>, the volumes come from
  \<^verbatim>\<open>volumesFromTimestamp\<close>, and the ask price is either recomputed from the bid price or
  moved by the same amount as the bid price.\<close>

definition stepped :: "timedelta \<Rightarrow> real \<Rightarrow> vars \<Rightarrow> vars \<Rightarrow> bool" where
  "stepped deltaTime spread s s' \<longleftrightarrow>
     ticks s' = ticks s @ [cur s]
     \<and> timestamp (cur s') = timestamp (cur s) + deltaTime
     \<and> askVolume (cur s') = of_int (bidVolume (cur s')) + spread * 100000
     \<and> (askPrice (cur s') = bidPrice (cur s') + spread
        \<or> askPrice (cur s') - bidPrice (cur s') = askPrice (cur s) - bidPrice (cur s))"

text \<open>The invariant of the loops, \<open>c0\<close> being the tick the model starts from.\<close>

definition run_invariant :: "tick \<Rightarrow> timedelta \<Rightarrow> real \<Rightarrow> vars \<Rightarrow> bool" where
  "run_invariant c0 deltaTime spread s \<longleftrightarrow>
     askPrice (cur s) = bidPrice (cur s) + spread
     \<and> list_all (\<lambda>t. askPrice t = bidPrice t + spread) (ticks s)
     \<and> spaced deltaTime (map timestamp (ticks s) @ [timestamp (cur s)])
     \<and> list_all (\<lambda>t. askVolume t = of_int (bidVolume t) + spread * 100000) (tl (ticks s @ [cur s]))
     \<and> hd (ticks s @ [cur s]) = c0"

text \<open>What the invariant says about the emitted ticks alone.\<close>

definition ticks_invariant :: "datetime \<Rightarrow> timedelta \<Rightarrow> real \<Rightarrow> tick list \<Rightarrow> bool" where
  "ticks_invariant sd dt spread ts \<longleftrightarrow>
     list_all (\<lambda>t. askPrice t = bidPrice t + spread) ts
     \<and> spaced dt (map timestamp ts)
     \<and> list_all (\<lambda>t. askVolume t = of_int (bidVolume t) + spread * 100000) (tl ts)
     \<and> (ts \<noteq> [] \<longrightarrow> timestamp (hd ts) = sd \<and> bidVolume (hd ts) = 1 \<and> askVolume (hd ts) = 1 + spread)"

text \<open>What the loop of the linear model keeps besides: after \<open>k\<close> iterations the
  timestamp and the prices have moved \<open>k\<close> times, the emitted ticks are the \<open>k\<close> earlier
  positions, and the last of them lies before the end of the range.\<close>

definition linear_shape ::
  "datetime \<Rightarrow> real \<Rightarrow> timedelta \<Rightarrow> real \<Rightarrow> real \<Rightarrow> datetime \<Rightarrow> vars \<Rightarrow> bool" where
  "linear_shape sd sp dt dp spread stop s \<longleftrightarrow>
     timestamp (cur s) = sd + int (length (ticks s)) * dt
     \<and> bidPrice (cur s) = sp + real (length (ticks s)) * dp
     \<and> askPrice (cur s) = sp + spread + real (length (ticks s)) * dp
     \<and> map timestamp (ticks s) = map (\<lambda>j. sd + int j * dt) [0..<length (ticks s)]
     \<and> map bidPrice (ticks s) = map (\<lambda>j. sp + real j * dp) [0..<length (ticks s)]
     \<and> map askPrice (ticks s) = map (\<lambda>j. sp + spread + real j * dp) [0..<length (ticks s)]
     \<and> (ticks s \<noteq> [] \<longrightarrow> sd + (int (length (ticks s)) - 1) * dt < stop)"

subsection \<open>The tick count of the specification\<close>

text \<open>``\<open>ceil((endDate + 1 day - startDate) / deltaTime)\<close>'', the interval being the one
  the command line derives from the density.\<close>

definition expected_count :: "datetime \<Rightarrow> datetime \<Rightarrow> int \<Rightarrow> int" where
  "expected_count startDate endDate density =
     \<lceil>real_of_int (endDate + timedelta_days 1 - startDate)
        / real_of_int (timedelta_seconds (60 / real_of_int density))\<rceil>"

section \<open>Properties\<close>

subsection \<open>The loop of \<^verbatim>\<open>for i in range(a, b)\<close>\<close>

lemma for_range_step:
  "a < b \<Longrightarrow> for_range a b body s =
     (case body a s of Inl e \<Rightarrow> Inl e | Inr s' \<Rightarrow> for_range (a + 1) b body s')"
  by (subst for_range.simps) simp

lemma for_range_done: "\<not> a < b \<Longrightarrow> for_range a b body s = Inr s"
  by (subst for_range.simps) simp

text \<open>The rule of the loop: an invariant \<open>I i s\<close> that every iteration carries from
  \<open>i\<close> to \<open>i + 1\<close>, or leaves with an exception that satisfies \<open>E\<close>.\<close>

lemma for_range_rule:
  assumes "I a s"
    and "\<And>i s. a \<le> i \<Longrightarrow> i < b \<Longrightarrow> I i s \<Longrightarrow>
            (case body i s of Inl e \<Rightarrow> E e | Inr s' \<Rightarrow> I (i + 1) s')"
  shows "case for_range a b body s of Inl e \<Rightarrow> E e | Inr s' \<Rightarrow> I (max a b) s'"
  using assms
proof (induction a b body s rule: for_range.induct)
  case (1 a b body s)
  show ?case
  proof (cases "a < b")
    case False
    with "1.prems"(1) show ?thesis by (simp add: for_range_done max_def)
  next
    case True
    have st: "case body a s of Inl e \<Rightarrow> E e | Inr s' \<Rightarrow> I (a + 1) s'"
      using "1.prems"(2)[of a s] True "1.prems"(1) by simp
    show ?thesis
    proof (cases "body a s")
      case (Inl e)
      with st True show ?thesis by (simp add: for_range_step)
    next
      case (Inr s')
      with st have I': "I (a + 1) s'" by simp
      have "case for_range (a + 1) b body s' of Inl e \<Rightarrow> E e | Inr s'' \<Rightarrow> I (max (a + 1) b) s''"
        using "1.IH"[OF True Inr I'] "1.prems"(2) by force
      moreover have "max (a + 1) b = max a b" using True by simp
      ultimately show ?thesis using True Inr
        by (simp add: for_range_step split: sum.splits)
    qed
  qed
qed

subsection \<open>An inverted date range\<close>

text \<open>
  Claim C9. When both dates parse and the end date precedes the start date, the
  program leaves with status 1, its only line on the error stream is the \<^verbatim>\<open>[ERROR]\<close>
  message, and no row is written, to no sink.
\<close>

theorem main_end_precedes_start:
  assumes "strptime ev (arg_startDate a) = Some sd"
    and "strptime ev (arg_endDate a) = Some ed"
    and "ed < sd"
  shows "main ev a =
           Some \<lparr>exit_status = 1,
                 stderr = [''[ERROR] Ending date precedes starting date!''],
                 sink = None, written = []\<rparr>"
  using assms by (simp add: main_def error_exit_def)

theorem main_end_precedes_start_witness:
  "main \<lparr>strptime = (\<lambda>s. if s = ''2014.01.02'' then Some (midnight 2014 1 2)
                          else if s = ''2014.01.01'' then Some (midnight 2014 1 1) else None),
         strftime = (\<lambda>t. []), format_fixed = (\<lambda>d x. []), random = centre_draws\<rparr>
        \<lparr>arg_startDate = ''2014.01.02'', arg_endDate = ''2014.01.01'',
         arg_startPrice = 2, arg_endPrice = 2, arg_digits = 5, arg_spread = 10,
         arg_density = 1, arg_pattern = PatternNone, arg_volatility = 1,
         arg_outputFile = None, arg_verbose = False\<rparr>
     = Some \<lparr>exit_status = 1,
             stderr = [''[ERROR] Ending date precedes starting date!''],
             sink = None, written = []\<rparr>"
  by (rule main_end_precedes_start [where sd = "midnight 2014 1 2" and ed = "midnight 2014 1 1"])
     (simp_all add: midnight_def days_from_civil_def timedelta_days_def)

subsection \<open>Decimal strings\<close>

lemma digit_val_digit_char: "d < 10 \<Longrightarrow> digit_val (digit_char d) = d"
  by (simp add: digit_val_def digit_char_def)

lemma digit_char_not_minus: "d < 10 \<Longrightarrow> digit_char d \<noteq> CHR ''-''"
proof
  assume d: "d < 10" and "digit_char d = CHR ''-''"
  then have "(of_char (digit_char d) :: nat) = of_char (CHR ''-'')" by simp
  with d show False by (simp add: digit_char_def)
qed

lemma nat_of_str_snoc: "nat_of_str (s @ [c]) = 10 * nat_of_str s + digit_val c"
  by (simp add: nat_of_str_def)

lemma nat_of_str_str_nat: "nat_of_str (str_nat n) = n"
proof (induction n rule: str_nat.induct)
  case (1 n)
  show ?case
  proof (cases "n < 10")
    case True
    then show ?thesis
      by (subst str_nat.simps) (simp add: nat_of_str_def digit_val_digit_char)
  next
    case False
    then have "nat_of_str (str_nat n) = 10 * nat_of_str (str_nat (n div 10)) + digit_val (digit_char (n mod 10))"
      by (subst str_nat.simps) (simp add: nat_of_str_snoc)
    also have "\<dots> = 10 * (n div 10) + n mod 10"
      using "1.IH"[OF False] by (simp add: digit_val_digit_char)
    finally show ?thesis by simp
  qed
qed

lemma str_nat_not_minus: "c \<in> set (str_nat n) \<Longrightarrow> c \<noteq> CHR ''-''"
proof (induction n rule: str_nat.induct)
  case (1 n)
  show ?case
  proof (cases "n < 10")
    case True
    with "1.prems" show ?thesis
      by (subst (asm) str_nat.simps) (auto simp: digit_char_not_minus)
  next
    case False
    with "1.prems" have "c \<in> set (str_nat (n div 10)) \<or> c = digit_char (n mod 10)"
      by (subst (asm) str_nat.simps) auto
    moreover have "digit_char (n mod 10) \<noteq> CHR ''-''"
      by (rule digit_char_not_minus) simp
    ultimately show ?thesis using "1.IH"[OF False] by auto
  qed
qed

lemma length_str_nat_small: "n < 1000 \<Longrightarrow> length (str_nat n) \<le> 3"
  apply (subst str_nat.simps)
  apply (subst str_nat.simps)
  apply (subst str_nat.simps)
  apply (auto)
  done


lemma three_digits:
  "100 * ((n::nat) div 100 mod 10) + 10 * (n div 10 mod 10) + n mod 10 = n mod 1000"
proof -
  have "n mod 1000 = 10 * (n div 10 mod 100) + n mod 10"
    using mod_mult2_eq[of n 10 100] by simp
  moreover have "n div 10 mod 100 = 10 * (n div 10 div 10 mod 10) + n div 10 mod 10"
    using mod_mult2_eq[of "n div 10" 10 10] by simp
  moreover have "n div 10 div 10 = n div 100" using div_mult2_eq[of n 10 10] by simp
  ultimately show ?thesis by simp
qed

lemma str_nat_unfold: "10 \<le> n \<Longrightarrow> str_nat n = str_nat (n div 10) @ [digit_char (n mod 10)]"
  by (subst str_nat.simps) simp

lemma str_nat_large:
  assumes "1000 \<le> n"
  shows "str_nat n = str_nat (n div 1000)
           @ [digit_char (n div 100 mod 10), digit_char (n div 10 mod 10), digit_char (n mod 10)]"
proof -
  have d1: "10 \<le> n div 10" using assms div_le_mono[of 1000 n 10] by simp
  have d2: "10 \<le> n div 100" using assms div_le_mono[of 1000 n 100] by simp
  have e1: "n div 10 div 10 = n div 100" using div_mult2_eq[of n 10 10] by simp
  have e2: "n div 100 div 10 = n div 1000" using div_mult2_eq[of n 100 10] by simp
  have a: "str_nat n = str_nat (n div 10) @ [digit_char (n mod 10)]"
    using assms by (intro str_nat_unfold) simp
  have b: "str_nat (n div 10) = str_nat (n div 100) @ [digit_char (n div 10 mod 10)]"
    using str_nat_unfold[OF d1] by (simp only: e1)
  have c: "str_nat (n div 100) = str_nat (n div 1000) @ [digit_char (n div 100 mod 10)]"
    using str_nat_unfold[OF d2] by (simp only: e2)
  show ?thesis by (simp only: a b c append_assoc append.simps)
qed

lemma last3_str_nat: "nat_of_str (last_chars 3 (str_nat n)) = n mod 1000"
proof (cases "n < 1000")
  case True
  then have "last_chars 3 (str_nat n) = str_nat n"
    using length_str_nat_small[of n] by (simp add: last_chars_def)
  with True show ?thesis by (simp add: nat_of_str_str_nat)
next
  case False
  then have n: "1000 \<le> n" by simp
  have "last_chars 3 (str_nat n)
          = [digit_char (n div 100 mod 10), digit_char (n div 10 mod 10), digit_char (n mod 10)]"
    by (simp add: str_nat_large[OF n] last_chars_def)
  then have "nat_of_str (last_chars 3 (str_nat n))
          = 100 * (n div 100 mod 10) + 10 * (n div 10 mod 10) + n mod 10"
    by (simp add: nat_of_str_def digit_val_digit_char)
  also have "\<dots> = n mod 1000" by (rule three_digits)
  finally show ?thesis .
qed

lemma last_chars_not_minus: "c \<in> set (last_chars 3 (str_nat n)) \<Longrightarrow> c \<noteq> CHR ''-''"
  using str_nat_not_minus[of c n] by (auto simp: last_chars_def dest: in_set_dropD)

lemma int_of_str_digits:
  assumes "\<And>c. c \<in> set s \<Longrightarrow> c \<noteq> CHR ''-''"
  shows "int_of_str s = int (nat_of_str s)"
  using assms by (cases s) (auto simp: int_of_str_def nat_of_str_def)

lemma last3_nonneg:
  assumes "0 \<le> n"
  shows "int_of_str (last_chars 3 (str_int n)) = n mod 1000"
proof -
  have "int_of_str (last_chars 3 (str_int n)) = int (nat_of_str (last_chars 3 (str_nat (nat n))))"
    using assms by (simp add: str_int_def int_of_str_digits last_chars_not_minus)
  also have "\<dots> = int (nat n mod 1000)" by (simp add: last3_str_nat)
  also have "\<dots> = n mod 1000" using assms by (simp add: zmod_int)
  finally show ?thesis .
qed


subsection \<open>The volume synthesiser\<close>

text \<open>From the second day of the year 1 on, the only exception it raises is a division
  by zero; and the ask volume it returns is the bid volume plus the scaled spread.\<close>

lemma timestamp_in_range:
  "datetime_min + timedelta_days 1 \<le> t \<Longrightarrow> datetime_timestamp t = Inr (posix_timestamp t)"
  by (simp add: datetime_timestamp_def)

lemma timestamp_after_epoch: "0 \<le> t \<Longrightarrow> datetime_timestamp t = Inr (posix_timestamp t)"
  by (rule timestamp_in_range) (simp add: datetime_min_def timedelta_days_def)

lemma volumes_error:
  "volumesFromTimestamp t sp = Inl e \<Longrightarrow> datetime_min + timedelta_days 1 \<le> t
     \<Longrightarrow> e = ZeroDivisionError"
  by (auto simp: volumesFromTimestamp_def timestamp_in_range float_div_def float_mod_def Let_def
           split: sum.splits if_splits)

lemma volumes_ask:
  "volumesFromTimestamp t sp = Inr (bv, av) \<Longrightarrow> av = of_int bv + sp * 100000"
  by (auto simp: volumesFromTimestamp_def Let_def split: sum.splits)

lemma d_after_epoch:
  assumes "0 \<le> t"
  shows "int_of_str (last_chars 3 (str_int (py_int (posix_timestamp t / 60)))) + 1 = spec_d t"
proof -
  have nn: "0 \<le> posix_timestamp t / 60" using assms by (simp add: posix_timestamp_def)
  then have "py_int (posix_timestamp t / 60) = \<lfloor>posix_timestamp t / 60\<rfloor>"
    by (simp add: py_int_def)
  moreover have "0 \<le> \<lfloor>posix_timestamp t / 60\<rfloor>" using nn by simp
  ultimately show ?thesis by (simp add: last3_nonneg spec_d_def)
qed

lemma spec_d_pos: "0 < spec_d t"
proof -
  have "0 \<le> \<bar>\<lfloor>posix_timestamp t / 60\<rfloor>\<bar> mod 1000" by simp
  then show ?thesis unfolding spec_d_def by linarith
qed

lemma volumes_after_epoch_eq:
  assumes "0 \<le> t" and "sp * 100000 \<noteq> 1000"
  shows "volumesFromTimestamp t sp =
           Inr (py_int (real_mod (posix_timestamp t / of_int (spec_d t)) (1000 - sp * 100000)),
                of_int (py_int (real_mod (posix_timestamp t / of_int (spec_d t)) (1000 - sp * 100000)))
                  + sp * 100000)"
  using assms spec_d_pos[of t]
  by (simp add: volumesFromTimestamp_def timestamp_after_epoch Let_def d_after_epoch
        float_div_def float_mod_def real_mod_def)

lemma volumes_total:
  assumes "0 \<le> t" and "sp * 100000 \<noteq> 1000"
  shows "\<exists>bv. volumesFromTimestamp t sp = Inr (bv, of_int bv + sp * 100000)"
  using volumes_after_epoch_eq[OF assms] by blast






subsection \<open>The invariant of the loops\<close>

lemma spaced_snoc:
  "spaced d (xs @ [x]) \<longleftrightarrow> spaced d xs \<and> (xs \<noteq> [] \<longrightarrow> x = last xs + d)"
  by (induction d xs rule: spaced.induct) auto

lemma spaced_nth:
  "spaced d xs \<Longrightarrow> Suc i < length xs \<Longrightarrow> xs ! Suc i = xs ! i + d"
proof (induction d xs arbitrary: i rule: spaced.induct)
  case (1 d x y zs)
  then show ?case by (cases i) auto
qed auto

lemma spaced_sorted: "spaced d xs \<Longrightarrow> 0 < d \<Longrightarrow> sorted_wrt (<) xs"
proof (induction d xs rule: spaced.induct)
  case (1 d x y zs)
  then have sp: "spaced d (y # zs)" and y: "y = x + d" by auto
  from 1 sp have s: "sorted_wrt (<) (y # zs)" by simp
  then have "\<forall>z \<in> set zs. y < z" by simp
  with y \<open>0 < d\<close> have "\<forall>z \<in> set (y # zs). x < z" by auto
  with s show ?case by simp
qed auto

lemma initial_invariant:
  "run_invariant (cur (initial_vars sd sp spread)) dt spread (initial_vars sd sp spread)"
  by (simp add: run_invariant_def initial_vars_def Let_def)

lemma stepped_invariant:
  assumes "run_invariant c0 dt spread s" and "stepped dt spread s s'"
  shows "run_invariant c0 dt spread s'"
proof -
  from assms(2) have t: "ticks s' = ticks s @ [cur s]"
    and ts: "timestamp (cur s') = timestamp (cur s) + dt"
    and v: "askVolume (cur s') = of_int (bidVolume (cur s')) + spread * 100000"
    and a: "askPrice (cur s') = bidPrice (cur s') + spread
        \<or> askPrice (cur s') - bidPrice (cur s') = askPrice (cur s) - bidPrice (cur s)"
    by (simp_all add: stepped_def)
  from assms(1) have i1: "askPrice (cur s) = bidPrice (cur s) + spread"
    and i2: "list_all (\<lambda>t. askPrice t = bidPrice t + spread) (ticks s)"
    and i3: "spaced dt (map timestamp (ticks s) @ [timestamp (cur s)])"
    and i4: "list_all (\<lambda>t. askVolume t = of_int (bidVolume t) + spread * 100000) (tl (ticks s @ [cur s]))"
    and i5: "hd (ticks s @ [cur s]) = c0"
    by (simp_all add: run_invariant_def)
  have g1: "askPrice (cur s') = bidPrice (cur s') + spread" using a i1 by auto
  have g2: "list_all (\<lambda>t. askPrice t = bidPrice t + spread) (ticks s')"
    using i1 i2 by (simp add: t)
  have g3: "spaced dt (map timestamp (ticks s') @ [timestamp (cur s')])"
    using i3 spaced_snoc[of dt "map timestamp (ticks s) @ [timestamp (cur s)]" "timestamp (cur s')"]
    by (simp add: t ts)
  have g4: "list_all (\<lambda>t. askVolume t = of_int (bidVolume t) + spread * 100000) (tl (ticks s' @ [cur s']))"
  proof -
    have "tl (ticks s' @ [cur s']) = tl (ticks s @ [cur s]) @ [cur s']"
      by (cases "ticks s") (simp_all add: t)
    then show ?thesis using i4 v by simp
  qed
  have g5: "hd (ticks s' @ [cur s']) = c0" using i5 by (cases "ticks s") (simp_all add: t)
  show ?thesis using g1 g2 g3 g4 g5 by (simp add: run_invariant_def)
qed

lemma finish_Inr:
  assumes "finish t bid spread s = Inr s'"
  shows "ticks s' = ticks s \<and> timestamp (cur s') = t \<and> bidPrice (cur s') = bid
         \<and> askPrice (cur s') = bid + spread
         \<and> askVolume (cur s') = of_int (bidVolume (cur s')) + spread * 100000"
  using assms
  by (auto simp: finish_def Let_def split: sum.splits prod.splits dest: volumes_ask)

lemma linear_body_stepped:
  "linear_body dt dp spread s = Inr s' \<Longrightarrow> stepped dt spread s s'"
  by (auto simp: linear_body_def stepped_def emit_def datetime_add_def Let_def
           split: sum.splits prod.splits if_splits dest: volumes_ask)

lemma zigzag_body_stepped:
  "zigzag_body dt spread lift forward backward i s = Inr s' \<Longrightarrow> stepped dt spread s s'"
  by (auto simp: zigzag_body_def stepped_def emit_def datetime_add_def Let_def
           split: sum.splits if_splits dest!: finish_Inr)

lemma zigzag_tail_stepped:
  "zigzag_tail dt spread lift i s = Inr s' \<Longrightarrow> stepped dt spread s s'"
  by (auto simp: zigzag_tail_def stepped_def emit_def datetime_add_def Let_def
           split: sum.splits if_splits dest!: finish_Inr)

lemma wave_body_stepped:
  "wave_body dt spread vol sp dp count i s = Inr s' \<Longrightarrow> stepped dt spread s s'"
  by (auto simp: wave_body_def stepped_def emit_def datetime_add_def Let_def
           split: sum.splits if_splits dest!: finish_Inr)

lemma curve_body_stepped:
  "curve_body dt spread sp dp count d i s = Inr s' \<Longrightarrow> stepped dt spread s s'"
  by (auto simp: curve_body_def stepped_def emit_def datetime_add_def Let_def
           split: sum.splits if_splits dest!: finish_Inr)

lemma random_body_stepped:
  "random_body rnd dt spread vol dp i s = Inr s' \<Longrightarrow> stepped dt spread s s'"
  by (auto simp: random_body_def stepped_def emit_def datetime_add_def Let_def
           split: sum.splits if_splits dest!: finish_Inr)

text \<open>A counted loop whose iterations are all steps keeps the invariant.\<close>

lemma for_range_invariant:
  assumes "for_range a b body s = Inr s'"
    and "run_invariant c0 dt spread s"
    and "\<And>i s s'. body i s = Inr s' \<Longrightarrow> stepped dt spread s s'"
  shows "run_invariant c0 dt spread s'"
proof -
  have "case for_range a b body s of Inl e \<Rightarrow> True | Inr s' \<Rightarrow> run_invariant c0 dt spread s'"
  proof (rule for_range_rule[where I = "\<lambda>i. run_invariant c0 dt spread" and E = "\<lambda>e. True"])
    show "run_invariant c0 dt spread s" by fact
  next
    fix i s
    assume "run_invariant c0 dt spread s"
    then show "case body i s of Inl e \<Rightarrow> True | Inr s' \<Rightarrow> run_invariant c0 dt spread s'"
      using assms(3)[of i s] stepped_invariant by (auto split: sum.splits)
  qed
  with assms(1) show ?thesis by simp
qed

lemma linear_loop_invariant_aux:
  assumes "linear_loop ed dt dp spread s = Some y"
  shows "run_invariant c0 dt spread s \<longrightarrow> (\<forall>s'. y = Inr s' \<longrightarrow> run_invariant c0 dt spread s')"
  using assms
proof (induct rule: linear_loop.raw_induct[rotated 1, consumes 1])
  case (1 loop ed dt dp spread s y)
  note IH = 1(1) and eq = 1(2)
  show ?case
  proof (intro impI allI)
    fix s'
    assume inv: "run_invariant c0 dt spread s" and y: "y = Inr s'"
    from eq y show "run_invariant c0 dt spread s'"
      using IH inv stepped_invariant[OF inv linear_body_stepped]
      by (auto split: sum.splits if_splits)
  qed
qed

lemma linear_loop_invariant:
  assumes "linear_loop ed dt dp spread s = Some (Inr s')"
    and "run_invariant c0 dt spread s"
  shows "run_invariant c0 dt spread s'"
  using linear_loop_invariant_aux[OF assms(1)] assms(2) by simp

lemma run_invariant_ticks:
  assumes "run_invariant (cur (initial_vars sd sp spread)) dt spread s"
  shows "ticks_invariant sd dt spread (ticks s)"
proof -
  let ?c0 = "cur (initial_vars sd sp spread)"
  from assms have i2: "list_all (\<lambda>t. askPrice t = bidPrice t + spread) (ticks s)"
    and i3: "spaced dt (map timestamp (ticks s) @ [timestamp (cur s)])"
    and i4: "list_all (\<lambda>t. askVolume t = of_int (bidVolume t) + spread * 100000) (tl (ticks s @ [cur s]))"
    and i5: "hd (ticks s @ [cur s]) = ?c0"
    by (simp_all add: run_invariant_def)
  have g3: "spaced dt (map timestamp (ticks s))" using i3 by (simp add: spaced_snoc)
  have g4: "list_all (\<lambda>t. askVolume t = of_int (bidVolume t) + spread * 100000) (tl (ticks s))"
    using i4 by (cases "ticks s") simp_all
  have g5: "ticks s \<noteq> [] \<longrightarrow> hd (ticks s) = ?c0" using i5 by (cases "ticks s") simp_all
  have c0: "timestamp ?c0 = sd \<and> bidVolume ?c0 = 1 \<and> askVolume ?c0 = 1 + spread"
    by (simp add: initial_vars_def Let_def)
  show ?thesis using i2 g3 g4 g5 c0 by (simp add: ticks_invariant_def)
qed

lemma linearModel_invariant:
  assumes "linearModel sd ed sp ep dt spread = Some (Inr ts)"
  shows "ticks_invariant sd dt spread ts"
proof -
  from assms obtain dp s where "linear_loop ed dt dp spread (initial_vars sd sp spread) = Some (Inr s)"
    and "ts = ticks s"
    by (auto simp: linearModel_def Let_def split: sum.splits option.splits)
  then show ?thesis
    using linear_loop_invariant[OF _ initial_invariant] run_invariant_ticks by blast
qed

lemma zigzagModel_invariant:
  assumes "zigzagModel sd ed sp ep dt spread vol = Inr ts"
  shows "ticks_invariant sd dt spread ts"
proof -
  from assms obtain a b c lift lift' forward backward s s'
    where 1: "for_range 0 a (zigzag_body dt spread lift forward backward) (initial_vars sd sp spread) = Inr s"
      and 2: "for_range b c (zigzag_tail dt spread lift') s = Inr s'"
      and 3: "ts = ticks s'"
    by (auto simp: zigzagModel_def Let_def split: sum.splits)
  have "run_invariant (cur (initial_vars sd sp spread)) dt spread s"
    by (rule for_range_invariant[OF 1 initial_invariant]) (rule zigzag_body_stepped)
  then have "run_invariant (cur (initial_vars sd sp spread)) dt spread s'"
    by (rule for_range_invariant[OF 2]) (rule zigzag_tail_stepped)
  then show ?thesis using 3 run_invariant_ticks by blast
qed

lemma waveModel_invariant:
  assumes "waveModel sd ed sp ep dt spread vol = Inr ts"
  shows "ticks_invariant sd dt spread ts"
proof -
  from assms obtain count s
    where 1: "for_range 0 count (wave_body dt spread vol sp (ep - sp) count) (initial_vars sd sp spread) = Inr s"
      and 3: "ts = ticks s"
    by (auto simp: waveModel_def Let_def split: sum.splits)
  have "run_invariant (cur (initial_vars sd sp spread)) dt spread s"
    by (rule for_range_invariant[OF 1 initial_invariant]) (rule wave_body_stepped)
  then show ?thesis using 3 run_invariant_ticks by blast
qed

lemma curveModel_invariant:
  assumes "curveModel sd ed sp ep dt spread vol = Inr ts"
  shows "ticks_invariant sd dt spread ts"
proof -
  from assms obtain count d s
    where 1: "for_range 0 count (curve_body dt spread sp (ep - sp) count d) (initial_vars sd sp spread) = Inr s"
      and 3: "ts = ticks s"
    by (auto simp: curveModel_def Let_def split: sum.splits)
  have "run_invariant (cur (initial_vars sd sp spread)) dt spread s"
    by (rule for_range_invariant[OF 1 initial_invariant]) (rule curve_body_stepped)
  then show ?thesis using 3 run_invariant_ticks by blast
qed

lemma set_last_prices_Inr:
  assumes "set_last_prices ep spread ts = Inr ts'"
  shows "ts \<noteq> [] \<and> ts' = butlast ts @ [(last ts)\<lparr>bidPrice := ep, askPrice := ep + spread\<rparr>]"
  using assms by (auto simp: set_last_prices_def split: if_splits)

lemma set_last_prices_invariant:
  assumes "set_last_prices ep spread ts = Inr ts'" and "ticks_invariant sd dt spread ts"
  shows "ticks_invariant sd dt spread ts'"
proof -
  let ?l = "(last ts)\<lparr>bidPrice := ep, askPrice := ep + spread\<rparr>"
  from set_last_prices_Inr[OF assms(1)] have ne: "ts \<noteq> []" and ts': "ts' = butlast ts @ [?l]"
    by simp_all
  from ne have ts: "ts = butlast ts @ [last ts]" by simp
  from assms(2) have i1: "list_all (\<lambda>t. askPrice t = bidPrice t + spread) ts"
    and i2: "spaced dt (map timestamp ts)"
    and i3: "list_all (\<lambda>t. askVolume t = of_int (bidVolume t) + spread * 100000) (tl ts)"
    and i4: "timestamp (hd ts) = sd \<and> bidVolume (hd ts) = 1 \<and> askVolume (hd ts) = 1 + spread"
    using ne by (simp_all add: ticks_invariant_def)
  have m: "map timestamp ts' = map timestamp ts"
  proof -
    have "map timestamp ts' = map timestamp (butlast ts) @ [timestamp (last ts)]" by (simp add: ts')
    also have "\<dots> = map timestamp (butlast ts @ [last ts])" by simp
    finally show ?thesis using ts by simp
  qed
  have g1: "list_all (\<lambda>t. askPrice t = bidPrice t + spread) ts'"
  proof -
    have "list_all (\<lambda>t. askPrice t = bidPrice t + spread) (butlast ts)"
      using i1 by (auto simp: list_all_iff dest: in_set_butlastD)
    then show ?thesis by (simp add: ts')
  qed
  have g3: "list_all (\<lambda>t. askVolume t = of_int (bidVolume t) + spread * 100000) (tl ts')"
  proof (cases "butlast ts")
    case Nil
    then show ?thesis by (simp add: ts')
  next
    case (Cons a as)
    then have "tl ts = tl (butlast ts) @ [last ts]" using ts by (metis list.simps(3) tl_append2)
    with i3 have "list_all (\<lambda>t. askVolume t = of_int (bidVolume t) + spread * 100000) (tl (butlast ts))"
      and "askVolume (last ts) = of_int (bidVolume (last ts)) + spread * 100000" by simp_all
    then show ?thesis using Cons by (simp add: ts')
  qed
  have g4: "timestamp (hd ts') = sd \<and> bidVolume (hd ts') = 1 \<and> askVolume (hd ts') = 1 + spread"
  proof (cases "butlast ts")
    case Nil
    then have "ts = [last ts]" using ts by simp
    then have "hd ts = last ts" by (metis list.sel(1))
    with i4 show ?thesis using Nil by (simp add: ts')
  next
    case (Cons a as)
    then have "hd ts = a" using ts by (metis hd_append2 list.sel(1) list.simps(3))
    with i4 show ?thesis using Cons by (simp add: ts')
  qed
  show ?thesis using g1 i2 g3 g4 by (simp add: ticks_invariant_def m)
qed

lemma randomModel_invariant:
  assumes "randomModel rnd sd ed sp ep dt spread vol = Inr ts"
  shows "ticks_invariant sd dt spread ts"
proof -
  from assms obtain count dp s
    where 1: "for_range 0 count (random_body rnd dt spread vol dp) (initial_vars sd sp spread) = Inr s"
      and 3: "set_last_prices ep spread (ticks s) = Inr ts"
    by (auto simp: randomModel_def Let_def split: sum.splits)
  have "run_invariant (cur (initial_vars sd sp spread)) dt spread s"
    by (rule for_range_invariant[OF 1 initial_invariant]) (rule random_body_stepped)
  then show ?thesis using 3 run_invariant_ticks set_last_prices_invariant by blast
qed

lemma run_model_invariant:
  assumes "run_model rnd p sd ed sp ep dt spread vol = Some (Inr ts)"
  shows "ticks_invariant sd dt spread ts"
  using assms
  by (cases p)
     (auto simp: run_model_def linearModel_invariant zigzagModel_invariant waveModel_invariant
        curveModel_invariant randomModel_invariant)

subsection \<open>The interval between two ticks\<close>

lemma py_round_of_int: "py_round (of_int k) = k"
  by (simp add: py_round_def)

lemma py_round_nonneg: "0 \<le> x \<Longrightarrow> 0 \<le> py_round x"
  by (auto simp: py_round_def Let_def)

lemma py_round_le: "x \<le> of_int k \<Longrightarrow> py_round x \<le> k"
proof -
  assume a: "x \<le> of_int k"
  then have f: "\<lfloor>x\<rfloor> \<le> k" by (simp add: floor_le_iff)
  show ?thesis
  proof (cases "\<lfloor>x\<rfloor> = k")
    case True
    then have "x = of_int k" using a by linarith
    then show ?thesis by (simp add: py_round_of_int)
  next
    case False
    with f have "\<lfloor>x\<rfloor> + 1 \<le> k" by simp
    then show ?thesis by (auto simp: py_round_def Let_def)
  qed
qed

lemma py_round_pos: "1 / 2 < x \<Longrightarrow> 0 < py_round x"
proof -
  assume a: "1 / 2 < x"
  then have f: "0 \<le> \<lfloor>x\<rfloor>" by simp
  show ?thesis
  proof (cases "\<lfloor>x\<rfloor> = 0")
    case True
    then have "1 / 2 < x - of_int \<lfloor>x\<rfloor>" using a by simp
    then show ?thesis using True by (simp add: py_round_def Let_def)
  next
    case False
    with f have "0 < \<lfloor>x\<rfloor>" by linarith
    then show ?thesis by (auto simp: py_round_def Let_def)
  qed
qed

lemma timedelta_seconds_nonneg: "0 \<le> x \<Longrightarrow> 0 \<le> timedelta_seconds x"
proof -
  assume a: "0 \<le> x"
  then have w: "py_int x = \<lfloor>x\<rfloor>" and f: "0 \<le> \<lfloor>x\<rfloor>" by (simp_all add: py_int_def)
  have "0 \<le> x - of_int \<lfloor>x\<rfloor>" by linarith
  then have "0 \<le> py_round ((x - of_int \<lfloor>x\<rfloor>) * 1000000)" by (intro py_round_nonneg) simp
  with f show ?thesis by (simp add: timedelta_seconds_def w Let_def)
qed

lemma timedelta_seconds_le:
  assumes "0 \<le> x" and "x \<le> of_int k"
  shows "timedelta_seconds x \<le> k * 1000000"
proof -
  from assms have w: "py_int x = \<lfloor>x\<rfloor>" by (simp add: py_int_def)
  have "(x - of_int \<lfloor>x\<rfloor>) * 1000000 \<le> of_int ((k - \<lfloor>x\<rfloor>) * 1000000)"
    using assms(2) by simp
  then have "py_round ((x - of_int \<lfloor>x\<rfloor>) * 1000000) \<le> (k - \<lfloor>x\<rfloor>) * 1000000"
    by (rule py_round_le)
  then show ?thesis by (simp add: timedelta_seconds_def w Let_def algebra_simps)
qed

lemma timedelta_seconds_pos:
  assumes "1 / 2 < x * 1000000"
  shows "0 < timedelta_seconds x"
proof -
  from assms have x: "0 \<le> x" by simp
  then have w: "py_int x = \<lfloor>x\<rfloor>" and f: "0 \<le> \<lfloor>x\<rfloor>" by (simp_all add: py_int_def)
  show ?thesis
  proof (cases "\<lfloor>x\<rfloor> = 0")
    case True
    then have "0 < py_round ((x - of_int \<lfloor>x\<rfloor>) * 1000000)"
      using assms by (intro py_round_pos) simp
    then show ?thesis using True by (simp add: timedelta_seconds_def w Let_def)
  next
    case False
    with f have p: "0 < \<lfloor>x\<rfloor>" by linarith
    define r where "r = py_round ((x - of_int \<lfloor>x\<rfloor>) * 1000000)"
    have "0 \<le> x - of_int \<lfloor>x\<rfloor>" by linarith
    then have r: "0 \<le> r" unfolding r_def by (intro py_round_nonneg) simp
    have "timedelta_seconds x = \<lfloor>x\<rfloor> * 1000000 + r"
      by (simp only: timedelta_seconds_def w Let_def r_def)
    with p r show ?thesis by linarith
  qed
qed

lemma timedelta_seconds_exact:
  assumes "0 \<le> x" and "x * 1000000 = of_int k"
  shows "timedelta_seconds x = k"
proof -
  from assms have w: "py_int x = \<lfloor>x\<rfloor>" by (simp add: py_int_def)
  have "(x - of_int \<lfloor>x\<rfloor>) * 1000000 = of_int (k - \<lfloor>x\<rfloor> * 1000000)"
    using assms(2) by (simp add: algebra_simps)
  then have "py_round ((x - of_int \<lfloor>x\<rfloor>) * 1000000) = k - \<lfloor>x\<rfloor> * 1000000"
    by (simp only: py_round_of_int)
  then show ?thesis by (simp add: timedelta_seconds_def w Let_def)
qed

lemma interval_nonneg: "0 < density \<Longrightarrow> 0 \<le> timedelta_seconds (60 / real_of_int density)"
  by (rule timedelta_seconds_nonneg) simp

lemma interval_le: "0 < density \<Longrightarrow> timedelta_seconds (60 / real_of_int density) \<le> 60000000"
proof -
  assume d: "0 < density"
  then have "60 / real_of_int density \<le> of_int 60"
    by (simp add: pos_divide_le_eq) 
  with d show ?thesis using timedelta_seconds_le[of "60 / real_of_int density" 60] by simp
qed

lemma interval_pos:
  assumes "0 < density" and "density < 120000000"
  shows "0 < timedelta_seconds (60 / real_of_int density)"
proof (rule timedelta_seconds_pos)
  have "real_of_int density < 120000000" using assms(2) by linarith
  then show "1 / 2 < 60 / real_of_int density * 1000000"
    using assms(1) by (simp add: pos_less_divide_eq)
qed

lemma interval_exact:
  assumes "0 < density" and "density dvd 60000000"
  shows "timedelta_seconds (60 / real_of_int density) = 60000000 div density"
proof (rule timedelta_seconds_exact)
  show "0 \<le> 60 / real_of_int density" using assms(1) by simp
  from assms(2) obtain k where k: "60000000 = density * k" unfolding dvd_def by blast
  have "(density * k) div density = k" using assms(1) by simp
  then have "60000000 div density = k" by (simp only: k[symmetric])
  moreover have "60 / real_of_int density * 1000000 = real_of_int k"
  proof -
    have "real_of_int (60000000 :: int) = real_of_int density * real_of_int k"
      using k by (metis of_int_mult)
    then show ?thesis using assms(1) by (simp add: field_simps)
  qed
  ultimately show "60 / real_of_int density * 1000000 = real_of_int (60000000 div density)" by simp
qed

subsection \<open>The number of ticks\<close>

lemma ceiling_div_bounds:
  assumes "0 < (d::int)"
  shows "(\<lceil>real_of_int a / real_of_int d\<rceil> - 1) * d < a \<and> a \<le> \<lceil>real_of_int a / real_of_int d\<rceil> * d"
proof -
  let ?n = "\<lceil>real_of_int a / real_of_int d\<rceil>"
  have d: "0 < real_of_int d" using assms by simp
  have "real_of_int a / real_of_int d \<le> of_int ?n" by simp
  then have "real_of_int a \<le> of_int ?n * real_of_int d" using d by (simp only: pos_divide_le_eq)
  then have u: "a \<le> ?n * d" by (metis of_int_le_iff of_int_mult)
  have "of_int ?n - 1 < real_of_int a / real_of_int d" by linarith
  then have "(of_int ?n - 1) * real_of_int d < real_of_int a" using d by (simp only: pos_less_divide_eq)
  then have "real_of_int ((?n - 1) * d) < real_of_int a" by simp
  then have l: "(?n - 1) * d < a" by (simp only: of_int_less_iff)
  show ?thesis using l u by simp
qed


lemma datetime_add_ok:
  "datetime_min \<le> t + d \<Longrightarrow> t + d \<le> datetime_max \<Longrightarrow> datetime_add t d = Inr (t + d)"
  by (simp add: datetime_add_def)

lemma datetime_min_neg: "datetime_min < 0"
  by (simp add: datetime_min_def)

lemma tick_count_eq:
  assumes "datetime_min \<le> ed + timedelta_days 1" and "ed + timedelta_days 1 \<le> datetime_max"
    and "dt \<noteq> 0"
  shows "tick_count sd ed dt = Inr \<lceil>real_of_int (ed + timedelta_days 1 - sd) / real_of_int dt\<rceil>"
  using assms by (simp add: tick_count_def datetime_add_ok timedelta_div_def)


subsection \<open>Counted loops that raise nothing\<close>


lemma advance_ok:
  assumes "0 \<le> timestamp (cur s)" and "0 \<le> dt" and "timestamp (cur s) + dt \<le> datetime_max"
  shows "datetime_add (timestamp (cur (emit s))) dt = Inr (timestamp (cur s) + dt)"
  using assms datetime_min_neg by (simp add: emit_def datetime_add_def)







subsection \<open>The counted models return\<close>

lemma initial_vars_simps:
  "timestamp (cur (initial_vars sd sp spread)) = sd"
  "ticks (initial_vars sd sp spread) = []"
  "bidPrice (cur (initial_vars sd sp spread)) = sp"
  "askPrice (cur (initial_vars sd sp spread)) = sp + spread"
  "bidVolume (cur (initial_vars sd sp spread)) = 1"
  "askVolume (cur (initial_vars sd sp spread)) = 1 + spread"
  by (simp_all add: initial_vars_def Let_def)


text \<open>The hypotheses the models share: the run starts at or after the epoch, the
  interval is positive and shorter than the range, the last timestamp computed is a
  \<^verbatim>\<open>datetime\<close>, and the scaled spread is not 1000.\<close>

lemma stop_in_range:
  assumes "0 \<le> sd" and "0 < dt" and "dt < ed + timedelta_days 1 - sd"
    and "ed + timedelta_days 1 + dt \<le> datetime_max + 1"
  shows "datetime_add ed (timedelta_days 1) = Inr (ed + timedelta_days 1)"
  using assms datetime_min_neg by (intro datetime_add_ok) simp_all







subsection \<open>The loop of the linear model\<close>

lemma linear_body_Inr:
  assumes "linear_body dt dp spread s = Inr s'"
  shows "stepped dt spread s s' \<and> bidPrice (cur s') = bidPrice (cur s) + dp
         \<and> askPrice (cur s') = askPrice (cur s) + dp"
  using assms linear_body_stepped[OF assms]
  by (auto simp: linear_body_def emit_def Let_def split: sum.splits prod.splits)

lemma linear_body_total:
  assumes "0 \<le> timestamp (cur s)" and "0 \<le> dt" and "timestamp (cur s) + dt \<le> datetime_max"
    and "spread * 100000 \<noteq> 1000"
  shows "\<exists>s'. linear_body dt dp spread s = Inr s'"
proof -
  have "0 \<le> timestamp (cur s) + dt" using assms by simp
  from volumes_total[OF this assms(4)] obtain bv
    where "volumesFromTimestamp (timestamp (cur s) + dt) spread = Inr (bv, of_int bv + spread * 100000)"
    by blast
  then show ?thesis
    unfolding linear_body_def Let_def advance_ok[OF assms(1-3)] by simp
qed

lemma linear_loop_total:
  assumes "datetime_add ed (timedelta_days 1) = Inr stop" and "0 < dt"
    and "0 \<le> timestamp (cur s)" and "stop + dt \<le> datetime_max + 1"
    and "spread * 100000 \<noteq> 1000"
  shows "\<exists>s'. linear_loop ed dt dp spread s = Some (Inr s')"
  using assms(3)
proof (induction "nat (stop - timestamp (cur s))" arbitrary: s rule: less_induct)
  case less
  show ?case
  proof (cases "timestamp (cur s) < stop")
    case False
    then show ?thesis by (subst linear_loop.simps) (simp add: assms(1))
  next
    case True
    have le: "timestamp (cur s) + dt \<le> datetime_max" using True assms(4) by simp
    from linear_body_total[OF less.prems _ le assms(5)] assms(2)
    obtain s1 where s1: "linear_body dt dp spread s = Inr s1" by auto
    from linear_body_Inr[OF s1] have t: "timestamp (cur s1) = timestamp (cur s) + dt"
      by (simp add: stepped_def)
    have "nat (stop - timestamp (cur s1)) < nat (stop - timestamp (cur s))"
      using t True assms(2) by simp
    moreover have "0 \<le> timestamp (cur s1)" using t less.prems assms(2) by simp
    ultimately obtain s' where "linear_loop ed dt dp spread s1 = Some (Inr s')"
      using less.hyps by blast
    then show ?thesis using True s1 by (subst linear_loop.simps) (simp add: assms(1))
  qed
qed

lemma linear_loop_rule_aux:
  assumes "linear_loop ed dt dp spread s = Some y"
    and "\<forall>s s'. I s \<longrightarrow> datetime_add ed (timedelta_days 1) = Inr stop \<longrightarrow> timestamp (cur s) < stop
            \<longrightarrow> linear_body dt dp spread s = Inr s' \<longrightarrow> I s'"
  shows "I s \<longrightarrow> datetime_add ed (timedelta_days 1) = Inr stop
           \<longrightarrow> (\<forall>s'. y = Inr s' \<longrightarrow> I s' \<and> \<not> timestamp (cur s') < stop)"
  using assms
proof (induct rule: linear_loop.raw_induct[rotated 1, consumes 1])
  case (1 loop ed dt dp spread s y)
  note IH = 1(1) and eq = 1(2) and st = 1(3)
  show ?case
  proof (intro impI allI)
    fix s'
    assume inv: "I s" and stop: "datetime_add ed (timedelta_days 1) = Inr stop" and y: "y = Inr s'"
    show "I s' \<and> \<not> timestamp (cur s') < stop"
    proof (cases "timestamp (cur s) < stop")
      case False
      with eq stop y inv show ?thesis by simp
    next
      case True
      with eq stop y obtain s1 where b: "linear_body dt dp spread s = Inr s1"
        and l: "loop ed dt dp spread s1 = Some (Inr s')"
        by (auto split: sum.splits)
      from st inv stop True b have "I s1" by blast
      with IH[OF l st] stop show ?thesis by blast
    qed
  qed
qed

lemma linear_loop_rule:
  assumes "linear_loop ed dt dp spread s = Some (Inr s')"
    and "datetime_add ed (timedelta_days 1) = Inr stop"
    and "I s"
    and "\<And>s s'. I s \<Longrightarrow> timestamp (cur s) < stop
            \<Longrightarrow> linear_body dt dp spread s = Inr s' \<Longrightarrow> I s'"
  shows "I s' \<and> \<not> timestamp (cur s') < stop"
proof -
  have "\<forall>s s'. I s \<longrightarrow> datetime_add ed (timedelta_days 1) = Inr stop \<longrightarrow> timestamp (cur s) < stop
            \<longrightarrow> linear_body dt dp spread s = Inr s' \<longrightarrow> I s'"
    using assms(4) by blast
  from linear_loop_rule_aux[OF assms(1) this] assms(2,3) show ?thesis by blast
qed

lemma linear_shape_initial:
  "linear_shape sd sp dt dp spread stop (initial_vars sd sp spread)"
  by (simp add: linear_shape_def initial_vars_simps)

lemma linear_shape_step:
  assumes "linear_shape sd sp dt dp spread stop s" and "timestamp (cur s) < stop"
    and "linear_body dt dp spread s = Inr s'"
  shows "linear_shape sd sp dt dp spread stop s'"
proof -
  define k where "k = length (ticks s)"
  from linear_body_Inr[OF assms(3)] have t: "ticks s' = ticks s @ [cur s]"
    and ts: "timestamp (cur s') = timestamp (cur s) + dt"
    and b: "bidPrice (cur s') = bidPrice (cur s) + dp"
    and a: "askPrice (cur s') = askPrice (cur s) + dp"
    by (simp_all add: stepped_def)
  from assms(1) have c1: "timestamp (cur s) = sd + int k * dt"
    and c2: "bidPrice (cur s) = sp + real k * dp"
    and c3: "askPrice (cur s) = sp + spread + real k * dp"
    and m1: "map timestamp (ticks s) = map (\<lambda>j. sd + int j * dt) [0..<k]"
    and m2: "map bidPrice (ticks s) = map (\<lambda>j. sp + real j * dp) [0..<k]"
    and m3: "map askPrice (ticks s) = map (\<lambda>j. sp + spread + real j * dp) [0..<k]"
    by (simp_all add: linear_shape_def k_def)
  have l: "length (ticks s') = Suc k" by (simp add: t k_def)
  have g1: "timestamp (cur s') = sd + int (Suc k) * dt" by (simp add: ts c1 algebra_simps)
  have g2: "bidPrice (cur s') = sp + real (Suc k) * dp" by (simp add: b c2 algebra_simps)
  have g3: "askPrice (cur s') = sp + spread + real (Suc k) * dp" by (simp add: a c3 algebra_simps)
  have n1: "map timestamp (ticks s') = map (\<lambda>j. sd + int j * dt) [0..<Suc k]"
    by (simp add: t m1 c1)
  have n2: "map bidPrice (ticks s') = map (\<lambda>j. sp + real j * dp) [0..<Suc k]"
    by (simp add: t m2 c2)
  have n3: "map askPrice (ticks s') = map (\<lambda>j. sp + spread + real j * dp) [0..<Suc k]"
    by (simp add: t m3 c3)
  have g4: "sd + (int (Suc k) - 1) * dt < stop" using assms(2) c1 by simp
  show ?thesis
    unfolding linear_shape_def l using g1 g2 g3 n1 n2 n3 g4 by blast
qed

lemma ceiling_div_unique:
  assumes "0 < (d::int)" and "(k - 1) * d < a" and "a \<le> k * d"
  shows "\<lceil>real_of_int a / real_of_int d\<rceil> = k"
proof (rule ceiling_unique)
  have d: "0 < real_of_int d" using assms(1) by simp
  have "real_of_int ((k - 1) * d) < real_of_int a" using assms(2) by (simp only: of_int_less_iff)
  then have "(real_of_int k - 1) * real_of_int d < real_of_int a" by simp
  then show "real_of_int k - 1 < real_of_int a / real_of_int d"
    using d by (simp only: pos_less_divide_eq)
  have "real_of_int a \<le> real_of_int (k * d)" using assms(3) by (simp only: of_int_le_iff)
  then have "real_of_int a \<le> real_of_int k * real_of_int d" by simp
  then show "real_of_int a / real_of_int d \<le> real_of_int k"
    using d by (simp only: pos_divide_le_eq)
qed

lemma linearModel_closed:
  assumes "0 \<le> sd" and "0 < dt" and "dt < ed + timedelta_days 1 - sd"
    and "ed + timedelta_days 1 + dt \<le> datetime_max + 1"
    and "spread * 100000 \<noteq> 1000"
  shows "\<exists>ts. linearModel sd ed sp ep dt spread = Some (Inr ts)
           \<and> int (length ts) = \<lceil>real_of_int (ed + timedelta_days 1 - sd) / real_of_int dt\<rceil>
           \<and> map timestamp ts = map (\<lambda>j. sd + int j * dt) [0..<length ts]
           \<and> map bidPrice ts
               = map (\<lambda>j. sp + real j * (real_of_int dt / real_of_int (ed + timedelta_days 1 - sd - dt)
                                          * (ep - sp))) [0..<length ts]
           \<and> map askPrice ts
               = map (\<lambda>j. sp + spread
                          + real j * (real_of_int dt / real_of_int (ed + timedelta_days 1 - sd - dt)
                                      * (ep - sp))) [0..<length ts]"
proof -
  define stop where "stop = ed + timedelta_days 1"
  define r where "r = real_of_int dt / real_of_int (stop - sd - dt)"
  define dp where "dp = r * (ep - sp)"
  let ?s0 = "initial_vars sd sp spread"
  have st: "datetime_add ed (timedelta_days 1) = Inr stop"
    unfolding stop_def by (rule stop_in_range[OF assms(1-4)])
  have d: "timedelta_div dt (stop - sd - dt) = Inr r"
    using assms(3) by (simp add: timedelta_div_def r_def stop_def)
  have "\<exists>s'. linear_loop ed dt dp spread ?s0 = Some (Inr s')"
    using assms by (intro linear_loop_total[OF st]) (simp_all add: initial_vars_simps stop_def)
  then obtain s' where lp: "linear_loop ed dt dp spread ?s0 = Some (Inr s')" by blast
  have sh: "linear_shape sd sp dt dp spread stop s' \<and> \<not> timestamp (cur s') < stop"
    by (rule linear_loop_rule[where I = "linear_shape sd sp dt dp spread stop", OF lp st
          linear_shape_initial]) (rule linear_shape_step)
  define k where "k = length (ticks s')"
  from sh have c1: "timestamp (cur s') = sd + int k * dt"
    and m1: "map timestamp (ticks s') = map (\<lambda>j. sd + int j * dt) [0..<k]"
    and m2: "map bidPrice (ticks s') = map (\<lambda>j. sp + real j * dp) [0..<k]"
    and m3: "map askPrice (ticks s') = map (\<lambda>j. sp + spread + real j * dp) [0..<k]"
    and lt: "ticks s' \<noteq> [] \<longrightarrow> sd + (int k - 1) * dt < stop"
    and ex: "\<not> timestamp (cur s') < stop"
    by (simp_all add: linear_shape_def k_def)
  have sdl: "sd < stop" using assms(2,3) by (simp add: stop_def)
  have k0: "ticks s' \<noteq> []"
  proof
    assume "ticks s' = []"
    then have "k = 0" by (simp add: k_def)
    with c1 ex sdl show False by simp
  qed
  have up: "stop - sd \<le> int k * dt" using ex c1 by simp
  have lo: "(int k - 1) * dt < stop - sd" using lt k0 by simp
  have kn: "\<lceil>real_of_int (stop - sd) / real_of_int dt\<rceil> = int k"
    by (rule ceiling_div_unique[OF assms(2) lo up])
  have "linearModel sd ed sp ep dt spread = Some (Inr (ticks s'))"
    by (simp only: linearModel_def Let_def st sum.case d dp_def[symmetric] lp option.case)
  with kn m1 m2 m3 show ?thesis
    unfolding k_def dp_def r_def stop_def by (intro exI[of _ "ticks s'"]) simp
qed

subsection \<open>From the command line to the models\<close>

lemma generate_run_model:
  "density \<noteq> 0 \<Longrightarrow>
   generate rnd p sd ed sp ep spread density vol
     = run_model rnd p sd ed sp ep (timedelta_seconds (60 / real_of_int density))
         (real_of_int spread / 100000) vol"
  by (simp add: generate_def float_div_def Let_def)

lemma generate_Inr:
  assumes "generate rnd p sd ed sp ep spread density vol = Some (Inr ts)"
  shows "run_model rnd p sd ed sp ep (timedelta_seconds (60 / real_of_int density))
           (real_of_int spread / 100000) vol = Some (Inr ts)"
  using assms by (cases "density = 0") (simp_all add: generate_def float_div_def Let_def)

lemma midnight_last: "midnight 9999 12 30 + timedelta_days 1 + 60000000 \<le> datetime_max + 1"
  by (simp add: midnight_def days_from_civil_def timedelta_days_def datetime_max_def)

text \<open>What a valid command line within the usual bounds gives the models.\<close>

lemma valid_run:
  assumes "0 \<le> sd" and "sd \<le> ed" and "ed \<le> midnight 9999 12 30"
    and "0 < density" and "density < 120000000" and "spread \<noteq> 1000"
  shows "0 < timedelta_seconds (60 / real_of_int density)"
    and "timedelta_seconds (60 / real_of_int density) < ed + timedelta_days 1 - sd"
    and "ed + timedelta_days 1 + timedelta_seconds (60 / real_of_int density) \<le> datetime_max + 1"
    and "real_of_int spread / 100000 * 100000 \<noteq> 1000"
proof -
  show "0 < timedelta_seconds (60 / real_of_int density)" by (rule interval_pos[OF assms(4,5)])
  have le: "timedelta_seconds (60 / real_of_int density) \<le> 60000000" by (rule interval_le[OF assms(4)])
  then show "timedelta_seconds (60 / real_of_int density) < ed + timedelta_days 1 - sd"
    using assms(2) by (simp add: timedelta_days_def)
  show "ed + timedelta_days 1 + timedelta_seconds (60 / real_of_int density) \<le> datetime_max + 1"
    using le assms(3) midnight_last by linarith
  show "real_of_int spread / 100000 * 100000 \<noteq> 1000" using assms(6) by simp
qed

subsection \<open>An interval of zero\<close>

lemma linear_loop_zero:
  assumes "linear_loop ed 0 dp spread s = Some (Inr s')"
    and "datetime_add ed (timedelta_days 1) = Inr stop"
  shows "\<not> timestamp (cur s) < stop"
proof
  assume lt: "timestamp (cur s) < stop"
  have "timestamp (cur s') < stop \<and> \<not> timestamp (cur s') < stop"
  proof (rule linear_loop_rule[where I = "\<lambda>s. timestamp (cur s) < stop", OF assms lt])
    fix s s' assume "timestamp (cur s) < stop" and "linear_body 0 dp spread s = Inr s'"
    then show "timestamp (cur s') < stop"
      using linear_body_Inr[of 0 dp spread s s'] by (simp add: stepped_def)
  qed
  then show False by simp
qed

lemma linearModel_zero:
  assumes "linearModel sd ed sp ep 0 spread = Some (Inr ts)"
  shows "ts = []"
proof -
  from assms obtain stop dp s where st: "datetime_add ed (timedelta_days 1) = Inr stop"
    and lp: "linear_loop ed 0 dp spread (initial_vars sd sp spread) = Some (Inr s)"
    and ts: "ts = ticks s"
    by (auto simp: linearModel_def Let_def split: sum.splits option.splits)
  from linear_loop_zero[OF lp st] have "\<not> timestamp (cur (initial_vars sd sp spread)) < stop" .
  then have "linear_loop ed 0 dp spread (initial_vars sd sp spread) = Some (Inr (initial_vars sd sp spread))"
    by (subst linear_loop.simps) (simp add: st)
  with lp have "s = initial_vars sd sp spread" by simp
  with ts show ?thesis by (simp add: initial_vars_simps)
qed

lemma tick_count_zero_error: "\<exists>e. tick_count sd ed 0 = Inl e"
  by (simp add: tick_count_def timedelta_div_def split: sum.splits)

lemma run_model_zero:
  assumes "run_model rnd p sd ed sp ep 0 spread vol = Some (Inr ts)"
  shows "ts = []"
proof (cases p)
  case PatternNone
  with assms show ?thesis by (simp add: run_model_def linearModel_zero)
next
  case PatternWave
  with assms tick_count_zero_error[of sd ed] show ?thesis
    by (auto simp: run_model_def waveModel_def Let_def)
next
  case PatternCurve
  with assms tick_count_zero_error[of sd ed] show ?thesis
    by (auto simp: run_model_def curveModel_def Let_def)
next
  case PatternZigzag
  with assms tick_count_zero_error[of sd ed] show ?thesis
    by (auto simp: run_model_def zigzagModel_def Let_def)
next
  case PatternRandom
  with assms tick_count_zero_error[of sd ed] show ?thesis
    by (auto simp: run_model_def randomModel_def Let_def split: sum.splits)
qed

subsection \<open>The linear model from the command line\<close>

lemma generate_linear:
  assumes "0 \<le> sd" and "sd \<le> ed" and "ed \<le> midnight 9999 12 30"
    and "0 < density" and "density < 120000000" and "spread \<noteq> 1000"
    and "dt = timedelta_seconds (60 / real_of_int density)"
    and "dp = real_of_int dt / real_of_int (ed + timedelta_days 1 - sd - dt) * (ep - sp)"
  shows "\<exists>ts. generate rnd PatternNone sd ed sp ep spread density vol = Some (Inr ts)
           \<and> int (length ts) = expected_count sd ed density
           \<and> map timestamp ts = map (\<lambda>j. sd + int j * dt) [0..<length ts]
           \<and> map bidPrice ts = map (\<lambda>j. sp + real j * dp) [0..<length ts]
           \<and> map askPrice ts
               = map (\<lambda>j. sp + real_of_int spread / 100000 + real j * dp) [0..<length ts]"
proof -
  note v = valid_run[OF assms(1-6)]
  have g: "generate rnd PatternNone sd ed sp ep spread density vol
             = linearModel sd ed sp ep dt (real_of_int spread / 100000)"
    using assms(4) by (simp add: generate_run_model run_model_def assms(7))
  from linearModel_closed[OF assms(1) v(1,2,3,4), of sp ep]
  show ?thesis unfolding g expected_count_def assms(7)[symmetric] assms(8)[symmetric] .
qed

lemma midnight_2014_1_1: "midnight 2014 1 1 = 1388534400000000"
  by (simp add: midnight_def days_from_civil_def timedelta_days_def)

lemma midnight_2014_1_2: "midnight 2014 1 2 = 1388620800000000"
  by (simp add: midnight_def days_from_civil_def timedelta_days_def)

lemma midnight_9999_12_30: "midnight 9999 12 30 = 253402128000000000"
  by (simp add: midnight_def days_from_civil_def timedelta_days_def)

lemma interval_1: "timedelta_seconds (60 / real_of_int 1) = 60000000"
  using interval_exact[of 1] by simp

lemma interval_7: "timedelta_seconds (60 / real_of_int 7) = 8571429"
  by (simp add: timedelta_seconds_def py_int_def py_round_def Let_def)


lemma expected_count_two_days: "expected_count (midnight 2014 1 1) (midnight 2014 1 2) 1 = 2880"
  by (simp add: expected_count_def interval_1[simplified] timedelta_days_def midnight_2014_1_1
        midnight_2014_1_2)

subsection \<open>The documented example\<close>

lemma example_run:
  "\<exists>ts. generate rnd PatternNone (midnight 2014 1 1) (midnight 2014 1 2) 2 2 10 1 vol = Some (Inr ts)
     \<and> length ts = 2880
     \<and> map timestamp ts = map (\<lambda>j. midnight 2014 1 1 + int j * 60000000) [0..<2880]
     \<and> map bidPrice ts = replicate 2880 2
     \<and> map askPrice ts = replicate 2880 (20001 / 10000)"
proof -
  have h: "(0::int) \<le> midnight 2014 1 1" "midnight 2014 1 1 \<le> midnight 2014 1 2"
    "midnight 2014 1 2 \<le> midnight 9999 12 30" "(0::int) < 1" "(1::int) < 120000000"
    "(10::int) \<noteq> 1000"
    by (simp_all add: midnight_2014_1_1 midnight_2014_1_2 midnight_9999_12_30)
  have dt: "(60000000::int) = timedelta_seconds (60 / real_of_int 1)" by (simp only: interval_1)
  have dp: "(0::real) = real_of_int 60000000
              / real_of_int (midnight 2014 1 2 + timedelta_days 1 - midnight 2014 1 1 - 60000000)
              * (2 - 2)" by simp
  from generate_linear[OF h dt dp, of rnd vol] obtain ts
    where g: "generate rnd PatternNone (midnight 2014 1 1) (midnight 2014 1 2) 2 2 10 1 vol = Some (Inr ts)"
      and l: "int (length ts) = expected_count (midnight 2014 1 1) (midnight 2014 1 2) 1"
      and t: "map timestamp ts = map (\<lambda>j. midnight 2014 1 1 + int j * 60000000) [0..<length ts]"
      and b: "map bidPrice ts = map (\<lambda>j. 2 + real j * 0) [0..<length ts]"
      and a: "map askPrice ts = map (\<lambda>j. 2 + real_of_int 10 / 100000 + real j * 0) [0..<length ts]"
    by blast
  from l have n: "length ts = 2880" by (simp add: expected_count_two_days)
  from b have b': "map bidPrice ts = replicate 2880 2" by (simp add: n map_replicate_trivial)
  from a have a': "map askPrice ts = replicate 2880 (20001 / 10000)"
    by (simp add: n map_replicate_trivial)
  from g n t b' a' show ?thesis by (intro exI[of _ ts]) simp
qed

text \<open>
  Claim C3. Running the generator with start date 2014.01.01, end date 2014.01.02, both
  prices 2.0, density 1, pattern none and spread 10 does not give 1440 ticks: the range
  runs through the end of the end date, two days of one tick a minute.

  What holds: the run produces exactly 2880 ticks, spaced 60 seconds apart from
  2014-01-01 00:00:00 on, every tick with bid price 2.0 and ask price 2.0001.
\<close>

theorem example_two_days:
  "\<exists>ts. generate rnd PatternNone (midnight 2014 1 1) (midnight 2014 1 2) 2 2 10 1 vol = Some (Inr ts)
     \<and> length ts = 2880
     \<and> map timestamp ts = map (\<lambda>j. midnight 2014 1 1 + int j * 60000000) [0..<2880]
     \<and> map bidPrice ts = replicate 2880 2
     \<and> map askPrice ts = replicate 2880 (20001 / 10000)"
  by (rule example_run)

text \<open>The counterexample to C3 as stated: the run has 2880 ticks, not 1440.\<close>

theorem example_counterexample:
  "tick_total (generate centre_draws PatternNone (midnight 2014 1 1) (midnight 2014 1 2) 2 2 10 1 1)
     = Some 2880"
proof -
  from example_run[of centre_draws 1] obtain ts
    where "generate centre_draws PatternNone (midnight 2014 1 1) (midnight 2014 1 2) 2 2 10 1 1
             = Some (Inr ts)" and "length ts = 2880" by blast
  then show ?thesis by (simp add: tick_total_def)
qed

subsection \<open>The first tick\<close>

lemma generate_first_tick:
  assumes "generate rnd p sd ed sp ep spread density vol = Some (Inr ts)" and "ts \<noteq> []"
  shows "timestamp (hd ts) = sd \<and> bidVolume (hd ts) = 1
         \<and> askVolume (hd ts) = 1 + real_of_int spread / 100000"
  using run_model_invariant[OF generate_Inr[OF assms(1)]] assms(2)
  by (simp add: ticks_invariant_def)

text \<open>
  Claim C7. Every tick, the first included, is claimed to have
  \<open>askVolume = bidVolume + spread * 1e5\<close>. The ticks after the first have it, their volumes
  coming from \<^verbatim>\<open>volumesFromTimestamp\<close>, which scales the spread; the first tick is
  built from \<^verbatim>\<open>bidVolume = 1\<close> and \<^verbatim>\<open>askVolume = bidVolume + spread\<close> with the spread
  in price units. In the documented example the first tick has the ask volume 1.0001,
  where the claim gives 11.
\<close>

theorem first_tick_volumes:
  "first_tick (generate centre_draws PatternNone (midnight 2014 1 1) (midnight 2014 1 2) 2 2 10 1 1)
     = Some \<lparr>timestamp = 1388534400000000, bidPrice = 2, askPrice = 20001 / 10000,
             bidVolume = 1, askVolume = 10001 / 10000\<rparr>"
proof -
  from example_run[of centre_draws 1] obtain ts
    where g: "generate centre_draws PatternNone (midnight 2014 1 1) (midnight 2014 1 2) 2 2 10 1 1
             = Some (Inr ts)" and n: "length ts = 2880"
      and b: "map bidPrice ts = replicate 2880 2"
      and a: "map askPrice ts = replicate 2880 (20001 / 10000)" by blast
  from n obtain t ts' where ts: "ts = t # ts'" by (cases ts) auto
  from generate_first_tick[OF g] ts
  have v: "timestamp t = midnight 2014 1 1" "bidVolume t = 1" "askVolume t = 1 + real_of_int 10 / 100000"
    by simp_all
  have "bidPrice t = hd (map bidPrice ts)" by (simp add: ts)
  also have "\<dots> = 2" by (simp only: b) (simp add: hd_replicate)
  finally have bp: "bidPrice t = 2" .
  have "askPrice t = hd (map askPrice ts)" by (simp add: ts)
  also have "\<dots> = 20001 / 10000" by (simp only: a) (simp add: hd_replicate)
  finally have ap: "askPrice t = 20001 / 10000" .
  have "t = \<lparr>timestamp = 1388534400000000, bidPrice = 2, askPrice = 20001 / 10000,
             bidVolume = 1, askVolume = 10001 / 10000\<rparr>"
    using v bp ap by (cases t) (simp add: midnight_2014_1_1)
  with g ts show ?thesis by (simp add: first_tick_def)
qed

lemma later_ticks_volumes:
  assumes "generate rnd p sd ed sp ep spread density vol = Some (Inr ts)" and "t \<in> set (tl ts)"
  shows "askVolume t = of_int (bidVolume t) + real_of_int spread / 100000 * 100000"
  using run_model_invariant[OF generate_Inr[OF assms(1)]] assms(2)
  by (simp add: ticks_invariant_def list_all_iff)

subsection \<open>Ask price and bid price\<close>



subsection \<open>The spacing of the timestamps\<close>

lemma spaced_nth_ticks:
  assumes "spaced d (map timestamp ts)" and "Suc i < length ts"
  shows "timestamp (ts ! Suc i) = timestamp (ts ! i) + d"
  using spaced_nth[OF assms(1), of i] assms(2) by simp

text \<open>
  Claim C8. As stated, with an interval of exactly \<open>60 / density\<close> seconds, the claim fails
  whenever \<open>60 / density\<close> seconds is not a whole number of microseconds: the interval is
  the \<^verbatim>\<open>timedelta\<close> of that many seconds, which is rounded to the microsecond.

  What holds: for every input with a positive density and every model, the timestamps
  of the generated sequence are strictly increasing and consecutive ticks are spaced by
  exactly \<^verbatim>\<open>timedelta(seconds=60 / density)\<close>, which is \<open>60 / density\<close> seconds rounded to
  the nearest microsecond, and exactly \<open>60 / density\<close> seconds when the density divides
  60,000,000.
\<close>

theorem tick_spacing:
  assumes "generate rnd p sd ed sp ep spread density vol = Some (Inr ts)" and "0 < density"
  shows "(\<forall>i. Suc i < length ts \<longrightarrow>
            timestamp (ts ! Suc i) = timestamp (ts ! i) + timedelta_seconds (60 / real_of_int density))
         \<and> sorted_wrt (<) (map timestamp ts)
         \<and> (density dvd 60000000 \<longrightarrow>
              real_of_int (timedelta_seconds (60 / real_of_int density)) / 1000000
                = 60 / real_of_int density)"
proof -
  let ?dt = "timedelta_seconds (60 / real_of_int density)"
  note r = generate_Inr[OF assms(1)]
  from run_model_invariant[OF r] have sp: "spaced ?dt (map timestamp ts)"
    by (simp add: ticks_invariant_def)
  have a: "\<forall>i. Suc i < length ts \<longrightarrow> timestamp (ts ! Suc i) = timestamp (ts ! i) + ?dt"
    using spaced_nth_ticks[OF sp] by blast
  have b: "sorted_wrt (<) (map timestamp ts)"
  proof (cases "?dt = 0")
    case True
    with r have "ts = []" using run_model_zero by metis
    then show ?thesis by simp
  next
    case False
    with interval_nonneg[OF assms(2)] have "0 < ?dt" by simp
    with sp show ?thesis by (rule spaced_sorted)
  qed
  have c: "real_of_int ?dt / 1000000 = 60 / real_of_int density" if "density dvd 60000000"
  proof -
    from that obtain k where k: "60000000 = density * k" unfolding dvd_def by blast
    have "(density * k) div density = k" using assms(2) by simp
    then have dk: "60000000 div density = k" by (simp only: k[symmetric])
    have "real_of_int (60000000 :: int) = real_of_int density * real_of_int k"
      using k by (metis of_int_mult)
    then have "real_of_int k / 1000000 = 60 / real_of_int density"
      using assms(2) by (simp add: field_simps)
    then show ?thesis by (simp only: interval_exact[OF assms(2) that] dk)
  qed
  from a b c show ?thesis by blast
qed

theorem tick_spacing_witness:
  "\<exists>ts. generate centre_draws PatternNone (midnight 2014 1 1) (midnight 2014 1 2) 2 2 10 1 1
           = Some (Inr ts)
       \<and> (0::int) < 1 \<and> Suc 0 < length ts
       \<and> timestamp (ts ! Suc 0) = timestamp (ts ! 0) + 60000000
       \<and> sorted_wrt (<) (map timestamp ts)
       \<and> (1::int) dvd 60000000
       \<and> real_of_int (timedelta_seconds (60 / real_of_int 1)) / 1000000 = 60 / real_of_int 1"
proof -
  from example_run[of centre_draws 1] obtain ts
    where g: "generate centre_draws PatternNone (midnight 2014 1 1) (midnight 2014 1 2) 2 2 10 1 1
             = Some (Inr ts)" and n: "length ts = 2880" by blast
  have d: "(0::int) < 1" by simp
  from tick_spacing[OF g d] n
  have "timestamp (ts ! Suc 0) = timestamp (ts ! 0) + timedelta_seconds (60 / real_of_int 1)"
    and "sorted_wrt (<) (map timestamp ts)"
    and "real_of_int (timedelta_seconds (60 / real_of_int 1)) / 1000000 = 60 / real_of_int 1"
    by simp_all
  with g n show ?thesis by (intro exI[of _ ts]) (simp add: interval_1[simplified])
qed

text \<open>The counterexample to C8 as stated: with seven ticks a minute the second tick
  follows the first after 8.571429 seconds, which is not \<open>60 / 7\<close> seconds.\<close>

theorem tick_spacing_counterexample:
  "take 2 (timestamps_of
             (generate centre_draws PatternNone (midnight 2014 1 1) (midnight 2014 1 1) 1 2 10 7 1))
     = [1388534400000000, 1388534408571429]
   \<and> real_of_int (1388534408571429 - 1388534400000000) / 1000000 \<noteq> 60 / 7"
proof -
  have h: "(0::int) \<le> midnight 2014 1 1" "midnight 2014 1 1 \<le> midnight 2014 1 1"
    "midnight 2014 1 1 \<le> midnight 9999 12 30" "(0::int) < 7" "(7::int) < 120000000"
    "(10::int) \<noteq> 1000"
    by (simp_all add: midnight_2014_1_1 midnight_9999_12_30)
  have dt: "(8571429::int) = timedelta_seconds (60 / real_of_int 7)" by (simp only: interval_7)
  from generate_linear[OF h dt refl, of centre_draws 1 2 1] obtain ts
    where g: "generate centre_draws PatternNone (midnight 2014 1 1) (midnight 2014 1 1) 1 2 10 7 1
                = Some (Inr ts)"
      and l: "int (length ts) = expected_count (midnight 2014 1 1) (midnight 2014 1 1) 7"
      and t: "map timestamp ts = map (\<lambda>j. midnight 2014 1 1 + int j * 8571429) [0..<length ts]"
    by blast
  have "expected_count (midnight 2014 1 1) (midnight 2014 1 1) 7 = 10080"
    by (simp add: expected_count_def interval_7[simplified] timedelta_days_def)
  with l have n: "length ts = 10080" by simp
  have "take 2 (map timestamp ts)
          = take 2 (map (\<lambda>j. midnight 2014 1 1 + int j * 8571429) [0..<10080])"
    by (subst t) (simp only: n)
  also have "\<dots> = map (\<lambda>j. midnight 2014 1 1 + int j * 8571429) (take 2 [0..<10080])"
    by (simp only: take_map)
  also have "take 2 [0..<10080] = [0, Suc 0]" by simp
  finally have tk: "take 2 (map timestamp ts) = [1388534400000000, 1388534408571429]"
    by (simp add: midnight_2014_1_1)
  have "timestamps_of
          (generate centre_draws PatternNone (midnight 2014 1 1) (midnight 2014 1 1) 1 2 10 7 1)
        = map timestamp ts" by (simp only: g timestamps_of_def option.case sum.case)
  with tk have "take 2 (timestamps_of
             (generate centre_draws PatternNone (midnight 2014 1 1) (midnight 2014 1 1) 1 2 10 7 1))
     = [1388534400000000, 1388534408571429]" by (simp only:)
  moreover have "real_of_int (1388534408571429 - 1388534400000000) / 1000000 \<noteq> 60 / 7" by simp
  ultimately show ?thesis by (rule conjI)
qed

subsection \<open>The random-walk model\<close>















subsection \<open>Where the linear model ends\<close>







subsection \<open>The zigzag model with a tail of one tick\<close>

lemma zigzag_body_timestamp:
  assumes "zigzag_body dt spread lift forward backward i s = Inr s'"
  shows "timestamp (cur s') = timestamp (cur s) + dt"
  using zigzag_body_stepped[OF assms] by (simp add: stepped_def)

lemma zigzag_body_error:
  assumes "zigzag_body dt spread lift forward backward i s = Inl e"
    and "datetime_min + timedelta_days 1 \<le> timestamp (cur s) + dt"
    and "timestamp (cur s) + dt \<le> datetime_max"
  shows "e = ZeroDivisionError"
proof -
  have "datetime_min \<le> timestamp (cur s) + dt" using assms(2) by (simp add: timedelta_days_def)
  with assms show ?thesis
    by (auto simp: zigzag_body_def Let_def emit_def datetime_add_def finish_def int_mod_def
             split: sum.splits prod.splits if_splits dest: volumes_error)
qed

lemma backward_one: "1 / 50 \<le> vol \<Longrightarrow> vol < 1 / 25 \<Longrightarrow> py_int (vol * 50) = 1"
proof -
  assume a: "1 / 50 \<le> vol" "vol < 1 / 25"
  then have "\<lfloor>vol * 50\<rfloor> = 1" by (intro floor_unique) simp_all
  with a show ?thesis by (simp add: py_int_def)
qed

lemma second_day: "midnight 1 1 2 = datetime_min + timedelta_days 1"
  by (simp add: midnight_def days_from_civil_def timedelta_days_def datetime_min_def)

lemma zigzagModel_backward_one:
  assumes "midnight 1 1 2 \<le> sd" and "sd \<le> ed" and "ed + timedelta_days 1 \<le> datetime_max"
    and "0 \<le> dt" and "py_int (vol * 50) = 1"
  shows "zigzagModel sd ed sp ep dt spread vol = Inl ZeroDivisionError"
proof (cases "dt = 0")
  case True
  have a0: "datetime_min \<le> sd" using assms(1) by (simp add: second_day timedelta_days_def)
  have "datetime_add ed (timedelta_days 1) = Inr (ed + timedelta_days 1)"
    using a0 assms(2,3) by (intro datetime_add_ok) (simp_all add: timedelta_days_def)
  then show ?thesis
    by (simp add: zigzagModel_def Let_def tick_count_def timedelta_div_def True)
next
  case False
  with assms(4) have dt0: "0 < dt" by simp
  define len where "len = ed + timedelta_days 1 - sd"
  define n where "n = \<lceil>real_of_int len / real_of_int dt\<rceil>"
  have a1: "datetime_min + timedelta_days 1 \<le> sd" using assms(1) by (simp only: second_day)
  then have a0: "datetime_min \<le> sd" by (simp add: timedelta_days_def)
  have len0: "0 < len" using assms(2) by (simp add: len_def timedelta_days_def)
  have st: "datetime_add ed (timedelta_days 1) = Inr (ed + timedelta_days 1)"
    using a0 assms(2,3) by (intro datetime_add_ok) (simp_all add: timedelta_days_def)
  have tc: "tick_count sd ed dt = Inr n"
    using False by (simp add: tick_count_def st timedelta_div_def n_def len_def)
  from ceiling_div_bounds[OF dt0, of len]
  have lo: "(n - 1) * dt < len" and up: "len \<le> n * dt" by (simp_all add: n_def)
  have n0: "0 < n"
  proof (rule ccontr)
    assume "\<not> 0 < n"
    then have "n * dt \<le> 0 * dt" using dt0 by (intro mult_right_mono) simp_all
    with up len0 show False by simp
  qed
  define lift where "lift = (ep - sp) / real_of_int n"
  have fl: "float_div (ep - sp) (real_of_int n) = Inr lift"
    using n0 by (simp add: float_div_def lift_def)
  let ?body = "zigzag_body dt spread lift 500 1"
  let ?s0 = "initial_vars sd sp spread"
  let ?I = "\<lambda>i (s::vars). timestamp (cur s) = sd + i * dt"
  have loop: "case for_range 0 (n - 1) ?body ?s0 of
          Inl e \<Rightarrow> e = ZeroDivisionError | Inr s' \<Rightarrow> ?I (max 0 (n - 1)) s'"
  proof (rule for_range_rule[where I = ?I and E = "\<lambda>e. e = ZeroDivisionError"])
    show "?I 0 ?s0" by (simp add: initial_vars_simps)
  next
    fix i s
    assume i: "0 \<le> i" "i < n - 1" and I: "?I i s"
    have "(i + 1) * dt \<le> (n - 1) * dt" using i dt0 by (intro mult_right_mono) simp_all
    with lo have "(i + 1) * dt < len" by simp
    then have hi: "timestamp (cur s) + dt \<le> datetime_max"
      using I assms(3) by (simp add: len_def algebra_simps)
    have "0 \<le> (i + 1) * dt" using i dt0 by simp
    then have lw: "datetime_min + timedelta_days 1 \<le> timestamp (cur s) + dt"
      using I a1 by (simp add: algebra_simps)
    show "case ?body i s of Inl e \<Rightarrow> e = ZeroDivisionError | Inr s' \<Rightarrow> ?I (i + 1) s'"
    proof (cases "?body i s")
      case (Inl e)
      with zigzag_body_error[OF Inl lw hi] show ?thesis by simp
    next
      case (Inr s')
      with zigzag_body_timestamp[OF Inr] I show ?thesis by (simp add: algebra_simps)
    qed
  qed
  show ?thesis
  proof (cases "for_range 0 (n - 1) ?body ?s0")
    case (Inl e)
    with loop have "e = ZeroDivisionError" by simp
    with Inl show ?thesis
      by (simp add: zigzagModel_def Let_def tc fl[unfolded lift_def] assms(5) lift_def)
  next
    case (Inr s)
    have "float_div (ep - bidPrice (cur s)) (real_of_int (1 - 1)) = Inl ZeroDivisionError"
      by (simp add: float_div_def)
    with Inr show ?thesis
      by (simp add: zigzagModel_def Let_def tc fl[unfolded lift_def] assms(5) lift_def)
  qed
qed

text \<open>
  Claim C10. Some inputs that pass all validation make the zigzag model fail: with any
  volatility from 0.02 up to but excluding 0.04, \<open>backward = int(volatility * 50)\<close> is 1,
  the step of the tail is computed by dividing by \<open>backward - 1 = 0\<close>, and the generation
  ends in a \<^verbatim>\<open>ZeroDivisionError\<close> instead of a tick sequence. This holds for every such
  input with a start date on or after 0001.01.02 and an end date on or before 9999.12.30,
  the dates on which neither \<^verbatim>\<open>timestamp()\<close> nor the step to the next day raises first.
\<close>

theorem zigzag_backward_one:
  assumes "midnight 1 1 2 \<le> sd" and "sd \<le> ed" and "ed + timedelta_days 1 \<le> datetime_max"
    and "0 < density" and "1 / 50 \<le> vol" and "vol < 1 / 25"
  shows "generate rnd PatternZigzag sd ed sp ep spread density vol = Some (Inl ZeroDivisionError)"
proof -
  have "generate rnd PatternZigzag sd ed sp ep spread density vol
          = Some (zigzagModel sd ed sp ep (timedelta_seconds (60 / real_of_int density))
                    (real_of_int spread / 100000) vol)"
    using assms(4) by (simp add: generate_run_model run_model_def)
  with zigzagModel_backward_one[OF assms(1-3) interval_nonneg[OF assms(4)] backward_one[OF assms(5,6)]]
  show ?thesis by simp
qed

theorem zigzag_backward_one_witness:
  "midnight 1 1 2 \<le> midnight 2014 1 1 \<and> midnight 2014 1 1 \<le> midnight 2014 1 30
   \<and> midnight 2014 1 30 + timedelta_days 1 \<le> datetime_max
   \<and> (0::int) < 1 \<and> (1 / 50 :: real) \<le> 3 / 100 \<and> (3 / 100 :: real) < 1 / 25
   \<and> generate centre_draws PatternZigzag (midnight 2014 1 1) (midnight 2014 1 30) 2 4 10 1 (3 / 100)
       = Some (Inl ZeroDivisionError)"
proof -
  have h: "midnight 1 1 2 \<le> midnight 2014 1 1" "midnight 2014 1 1 \<le> midnight 2014 1 30"
    "midnight 2014 1 30 + timedelta_days 1 \<le> datetime_max"
    "(0::int) < 1" "(1 / 50 :: real) \<le> 3 / 100" "(3 / 100 :: real) < 1 / 25"
    by (simp_all add: midnight_def days_from_civil_def timedelta_days_def datetime_min_def
          datetime_max_def)
  from zigzag_backward_one[OF h, of centre_draws 2 4 10] h show ?thesis by blast
qed

subsection \<open>The number of ticks of the models other than the random walk\<close>









end
